theory Spec2Isabelle
  imports Complex_Main
begin

section \<open>Python values and exceptions\<close>

text \<open>
  The exceptions the modelled functions can raise. A function that may raise returns
  \<open>error + 'a\<close>, with \<open>Inl\<close> for the exception. Python floats are modelled as
  exact reals, without rounding; where the source can produce an infinity or NaN, that
  is an explicit branch or value of the model.
\<close>

datatype error =
    CmdException string
  | ValueError
  | IndexError
  | KeyError
  | TypeError
  | ZeroDivisionError
  | OSError

text \<open>A Python number that is either a float or, after \<open>**0.5\<close> of a negative float, complex.\<close>

datatype pynum = PyFloat real | PyComplex complex

section \<open>Python built-ins on strings\<close>

text \<open>
  A \<open>char\<close> stands for a code point below 256. \<open>is_space\<close> is \<open>str.isspace\<close> on
  these code points, the characters at which \<open>split()\<close> splits. \<open>int()\<close> and
  \<open>float()\<close> strip fewer of them: the ASCII white space of C and the two spaces above
  127, but not the separators U+001C to U+001F, which they reject like any other
  character that is not part of a number.
\<close>

definition is_space :: "char \<Rightarrow> bool" where
  "is_space c =
     (let n = (of_char c :: nat)
      in (9 \<le> n \<and> n \<le> 13) \<or> (28 \<le> n \<and> n \<le> 32) \<or> n = 133 \<or> n = 160)"

definition is_digit :: "char \<Rightarrow> bool" where
  "is_digit c = (let n = (of_char c :: nat) in 48 \<le> n \<and> n \<le> 57)"

definition digit_val :: "char \<Rightarrow> nat" where
  "digit_val c = of_char c - 48"

definition is_num_space :: "char \<Rightarrow> bool" where
  "is_num_space c =
     (let n = (of_char c :: nat)
      in (9 \<le> n \<and> n \<le> 13) \<or> n = 32 \<or> n = 133 \<or> n = 160)"

definition strip :: "string \<Rightarrow> string" where
  "strip s = rev (dropWhile is_num_space (rev (dropWhile is_num_space s)))"

text \<open>\<open>s[a:b]\<close> and \<open>s[a:]\<close> for non-negative bounds.\<close>

definition slice :: "nat \<Rightarrow> nat \<Rightarrow> 'a list \<Rightarrow> 'a list" where
  "slice a b s = take (b - a) (drop a s)"

text \<open>
  \<open>s.split()\<close>: the maximal runs of non-whitespace characters. \<open>cur\<close> is the current
  run, reversed.
\<close>

fun split_from :: "string \<Rightarrow> string \<Rightarrow> string list" where
  "split_from cur [] = (if cur = [] then [] else [rev cur])"
| "split_from cur (c # cs) =
     (if is_space c then (if cur = [] then split_from [] cs else rev cur # split_from [] cs)
      else split_from (c # cur) cs)"

definition split :: "string \<Rightarrow> string list" where
  "split s = split_from [] s"

text \<open>
  \<open>digitpart\<close> of the grammar of \<open>int()\<close> and \<open>float()\<close>: decimal digits, with
  single underscores allowed between two digits.
\<close>

fun digitpart :: "string \<Rightarrow> bool" where
  "digitpart [] = False"
| "digitpart [c] = is_digit c"
| "digitpart (c # d # r) =
     (is_digit c \<and> (if d = CHR ''_'' then digitpart r else digitpart (d # r)))"

definition read_digits :: "string \<Rightarrow> nat" where
  "read_digits s = foldl (\<lambda>n c. 10 * n + digit_val c) 0 (filter is_digit s)"

text \<open>An optional sign in front of a string: whether it is negative, and the rest.\<close>

definition split_sign :: "string \<Rightarrow> bool \<times> string" where
  "split_sign s =
     (case s of
        [] \<Rightarrow> (False, [])
      | c # r \<Rightarrow>
          if c = CHR ''-'' then (True, r)
          else if c = CHR ''+'' then (False, r)
          else (False, s))"

text \<open>\<open>int(s)\<close> for a string \<open>s\<close>, base 10.\<close>

definition py_int :: "string \<Rightarrow> error + int" where
  "py_int s =
     (case split_sign (strip s) of (neg, body) \<Rightarrow>
        if digitpart body then Inr ((if neg then - 1 else 1) * int (read_digits body))
        else Inl ValueError)"

text \<open>
  The value of \<open>float(s)\<close>: a finite number (taken exactly, without rounding to a
  double), an infinity with its sign, or NaN.
\<close>

datatype fl = Fin real | Infty bool | NaN

definition lower :: "char \<Rightarrow> char" where
  "lower c = (let n = (of_char c :: nat) in if 65 \<le> n \<and> n \<le> 90 then char_of (n + 32) else c)"

definition is_e :: "char \<Rightarrow> bool" where
  "is_e c = (c = CHR ''e'' \<or> c = CHR ''E'')"

text \<open>The exponent after the \<open>e\<close>: an optional sign and a \<open>digitpart\<close>.\<close>

definition py_exponent :: "string \<Rightarrow> int option" where
  "py_exponent s =
     (case split_sign s of (neg, body) \<Rightarrow>
        if digitpart body then Some ((if neg then - 1 else 1) * int (read_digits body))
        else None)"

text \<open>\<open>number\<close> of the grammar: \<open>[digitpart] "." digitpart | digitpart ["."]\<close>.\<close>

definition py_number :: "string \<Rightarrow> real option" where
  "py_number s =
     (let ip = takeWhile (\<lambda>c. c \<noteq> CHR ''.'') s;
          fp = drop 1 (dropWhile (\<lambda>c. c \<noteq> CHR ''.'') s)
      in if (ip = [] \<or> digitpart ip) \<and> (fp = [] \<or> digitpart fp) \<and> \<not> (ip = [] \<and> fp = [])
         then Some (real (read_digits ip)
                    + real (read_digits fp) / 10 ^ length (filter is_digit fp))
         else None)"

definition pow10 :: "int \<Rightarrow> real" where
  "pow10 e = (if e \<ge> 0 then 10 ^ nat e else 1 / 10 ^ nat (- e))"

definition py_float :: "string \<Rightarrow> error + fl" where
  "py_float s =
     (case split_sign (strip s) of (neg, body) \<Rightarrow>
        if map lower body = ''inf'' \<or> map lower body = ''infinity'' then Inr (Infty neg)
        else if map lower body = ''nan'' then Inr NaN
        else
          (let m = takeWhile (\<lambda>c. \<not> is_e c) body;
               rest = dropWhile (\<lambda>c. \<not> is_e c) body;
               ex = (if rest = [] then Some 0 else py_exponent (drop 1 rest))
           in case (py_number m, ex) of
                (Some v, Some e) \<Rightarrow> Inr (Fin ((if neg then - 1 else 1) * v * pow10 e))
              | _ \<Rightarrow> Inl ValueError))"

text \<open>\<open>str(n)\<close> for an integer, and \<open>'%02d' % n\<close> for a natural number.\<close>

fun digits10 :: "nat \<Rightarrow> string" where
  "digits10 n =
     (if n < 10 then [char_of (48 + n)] else digits10 (n div 10) @ [char_of (48 + n mod 10)])"

definition str_int :: "int \<Rightarrow> string" where
  "str_int i = (if i < 0 then CHR ''-'' # digits10 (nat (- i)) else digits10 (nat i))"

definition fmt02 :: "nat \<Rightarrow> string" where
  "fmt02 n = (if n < 10 then CHR ''0'' # digits10 n else digits10 n)"

text \<open>
  A \<open>dict\<close> as an association list in insertion order with distinct keys:
  \<open>d[k] = v\<close> and \<open>d.setdefault(k, []).append(v)\<close>.
\<close>

fun dict_set :: "'k \<Rightarrow> 'v \<Rightarrow> ('k \<times> 'v) list \<Rightarrow> ('k \<times> 'v) list" where
  "dict_set k v [] = [(k, v)]"
| "dict_set k v ((k', v') # d) =
     (if k = k' then (k', v) # d else (k', v') # dict_set k v d)"

fun dict_append :: "'k \<Rightarrow> 'v \<Rightarrow> ('k \<times> 'v list) list \<Rightarrow> ('k \<times> 'v list) list" where
  "dict_append k v [] = [(k, [v])]"
| "dict_append k v ((k', vs) # d) =
     (if k = k' then (k', vs @ [v]) # d else (k', vs) # dict_append k v d)"

section \<open>chempy.cpv: 3-vectors\<close>

type_synonym vec = "real \<times> real \<times> real"

definition get_null :: vec where
  "get_null = (0, 0, 0)"

fun add :: "vec \<Rightarrow> vec \<Rightarrow> vec" where
  "add (a0, a1, a2) (b0, b1, b2) = (a0 + b0, a1 + b1, a2 + b2)"

fun scale :: "vec \<Rightarrow> real \<Rightarrow> vec" where
  "scale (v0, v1, v2) factor = (v0 * factor, v1 * factor, v2 * factor)"

fun dot_product :: "vec \<Rightarrow> vec \<Rightarrow> real" where
  "dot_product (a0, a1, a2) (b0, b1, b2) = a0 * b0 + a1 * b1 + a2 * b2"

section \<open>The host viewer\<close>

text \<open>
  An atom as the host hands it out: \<open>resi\<close> and \<open>resn\<close> are the residue identifier
  and residue name (strings), \<open>coord\<close> the position, \<open>mass\<close> the value of
  \<open>get_mass()\<close> and \<open>q\<close> the occupancy.
\<close>

record atom =
  resi :: string
  resn :: string
  coord :: vec
  mass :: real
  q :: real

text \<open>
  An object of the host: its atoms per state (state 1 first) and its object-level
  settings.
\<close>

record molobj =
  ostates :: "atom list list"
  osettings :: "(string \<times> string) list"

text \<open>
  The state of the host that the commands read and write: the current state number, the
  loaded objects in creation order, the global settings, the named selections, the
  feedback stack, the measurement objects made by \<open>cmd.distance\<close> (name and the two
  selections), and the module-level dictionary \<open>stored.resdict\<close>.
\<close>

record host =
  cur_state :: int
  objects :: "(string \<times> molobj) list"
  settings :: "(string \<times> string) list"
  selections :: "(string \<times> string) list"
  feedback :: "string list list"
  distances :: "(string \<times> string \<times> string) list"
  resdict :: "(int \<times> string) list"

text \<open>
  The parts of the host that are computed by its own engine and that the commands only
  call: the selection algebra (whether the host can resolve a selection expression, its
  atoms in a state, and the number of its states) and the surface-area computation on an
  object under the global settings.
\<close>

record engine =
  resolves :: "host \<Rightarrow> string \<Rightarrow> bool"
  get_model :: "host \<Rightarrow> string \<Rightarrow> int \<Rightarrow> atom list"
  count_states :: "host \<Rightarrow> string \<Rightarrow> int"
  iterate :: "host \<Rightarrow> string \<Rightarrow> atom list"
  get_area :: "molobj \<Rightarrow> (string \<times> string) list \<Rightarrow> real"

section \<open>querying.py\<close>

subsection \<open>centerofmass and gyradius\<close>

text \<open>The list of states both functions loop over.\<close>

definition state_list :: "engine \<Rightarrow> host \<Rightarrow> string \<Rightarrow> int \<Rightarrow> int list" where
  "state_list E h selection state =
     (if state < 0 then [cur_state h]
      else if state = 0 then [1 .. count_states E h selection]
      else [state])"

text \<open>One pass of the inner loop of \<open>centerofmass\<close> over an atom.\<close>

definition com_atom :: "atom \<Rightarrow> vec \<times> real \<Rightarrow> vec \<times> real" where
  "com_atom a acc =
     (case acc of (com, totmass) \<Rightarrow>
        if q a = 0 then (com, totmass)
        else (let m = mass a * q a in (add com (scale (coord a) m), totmass + m)))"

definition com_loop :: "engine \<Rightarrow> host \<Rightarrow> string \<Rightarrow> int list \<Rightarrow> vec \<times> real" where
  "com_loop E h selection states =
     fold (\<lambda>state acc. fold com_atom (get_model E h selection state) acc) states (get_null, 0)"

definition centerofmass :: "engine \<Rightarrow> host \<Rightarrow> string \<Rightarrow> int \<Rightarrow> error + vec" where
  "centerofmass E h selection state =
     (case com_loop E h selection (state_list E h selection state) of (com, totmass) \<Rightarrow>
        if totmass = 0 then Inl ZeroDivisionError
        else Inr (scale com (1 / totmass)))"

text \<open>
  The body of the loop of \<open>gyradius\<close> for the atoms of one state. \<open>x\<close> holds the
  coordinates of all atoms, \<open>mass\<close> the weights of the atoms with positive occupancy
  only, and \<open>zip\<close> pairs the two lists by position.
\<close>

definition rg_sq :: "atom list \<Rightarrow> error + real" where
  "rg_sq atoms =
     (let x = map coord atoms;
          mass = map (\<lambda>i. mass i * q i) (filter (\<lambda>i. q i > 0) atoms);
          xm = map (\<lambda>(v, m). scale v m) (zip x mass);
          tmass = sum_list mass;
          rr = sum_list (map (\<lambda>(v, vm). dot_product v vm) (zip x xm))
      in if tmass = 0 then Inl ZeroDivisionError
         else
           (let mm = (if xm = [] then 0
                      else (sum_list (map fst xm) / tmass)\<^sup>2
                         + (sum_list (map (fst \<circ> snd) xm) / tmass)\<^sup>2
                         + (sum_list (map (snd \<circ> snd) xm) / tmass)\<^sup>2)
            in Inr (rr / tmass - mm)))"

fun rg_sq_states :: "engine \<Rightarrow> host \<Rightarrow> string \<Rightarrow> int list \<Rightarrow> error + real list" where
  "rg_sq_states E h selection [] = Inr []"
| "rg_sq_states E h selection (state # states) =
     (case rg_sq (get_model E h selection state) of
        Inl e \<Rightarrow> Inl e
      | Inr r \<Rightarrow>
         (case rg_sq_states E h selection states of
            Inl e \<Rightarrow> Inl e
          | Inr rs \<Rightarrow> Inr (r # rs)))"

definition gyradius :: "engine \<Rightarrow> host \<Rightarrow> string \<Rightarrow> int \<Rightarrow> int \<Rightarrow> error + pynum" where
  "gyradius E h selection state quiet =
     (case rg_sq_states E h selection (state_list E h selection state) of
        Inl e \<Rightarrow> Inl e
      | Inr rg_sq_list \<Rightarrow>
          if rg_sq_list = [] then Inl ZeroDivisionError
          else
            (let msq = sum_list rg_sq_list / real (length rg_sq_list)
             in if msq \<ge> 0 then Inr (PyFloat (sqrt msq))
                else if quiet = 0 then Inl TypeError
                else Inr (PyComplex (Complex 0 (sqrt (- msq))))))"

text \<open>
  The squared radius of gyration of the atoms of one state as \<open>gyradius\<close> is
  described: every atom weighted by its own mass times occupancy \<open>w\<close>, the weighted
  mean of the squared lengths of the coordinates minus the squared length of the weighted
  mean coordinate. It is what \<open>rg_sq\<close> is compared with.
\<close>

definition weighted_rg_sq :: "atom list \<Rightarrow> real" where
  "weighted_rg_sq atoms =
     (let w = (\<lambda>a. mass a * q a);
          tw = sum_list (map w atoms);
          c = scale (fold (\<lambda>a s. add s (scale (coord a) (w a))) atoms get_null) (1 / tw)
      in sum_list (map (\<lambda>a. w a * dot_product (coord a) (coord a)) atoms) / tw
         - dot_product c c)"

subsection \<open>get_sasa\<close>

text \<open>
  The host calls that \<open>get_sasa\<close> makes. The names in use are those of the objects,
  of the named selections and of the measurement objects.
  \<open>cmd.get_unused_name(prefix)\<close> counts up from 1 and
  returns the first \<open>prefix\<close> followed by the two-digit count that is not in use; one
  of the first \<open>k + 1\<close> candidates is free when \<open>k\<close> names are in use, so the
  search below always finds one.
\<close>

definition names :: "host \<Rightarrow> string list" where
  "names h = map fst (objects h) @ map fst (selections h) @ map fst (distances h)"

definition candidates :: "host \<Rightarrow> string \<Rightarrow> string list" where
  "candidates h prefix = map (\<lambda>cnt. prefix @ fmt02 cnt) [1 ..< length (names h) + 2]"

definition get_unused_name :: "host \<Rightarrow> string \<Rightarrow> string" where
  "get_unused_name h prefix =
     (case find (\<lambda>n. n \<notin> set (names h)) (candidates h prefix) of
        Some n \<Rightarrow> n
      | None \<Rightarrow> prefix)"

text \<open>
  \<open>cmd.create(name, selection, source_state, 1)\<close>: for a selection that the host
  cannot resolve it raises \<open>CmdException\<close> and creates nothing; otherwise it makes an
  object with the atoms of the selection in its state 1 and no object-level settings; an
  object of that name is replaced.
\<close>

definition cmd_create ::
  "engine \<Rightarrow> string \<Rightarrow> string \<Rightarrow> int \<Rightarrow> host \<Rightarrow> error + host" where
  "cmd_create E name selection source_state h =
     (if \<not> resolves E h selection then Inl (CmdException ''create'')
      else Inr (h\<lparr>objects := dict_set name
                  \<lparr>ostates = [get_model E h selection source_state], osettings = []\<rparr>
                  (objects h)\<rparr>))"

text \<open>\<open>cmd.set(name, value, selection)\<close> with an object's name: an object-level setting.\<close>

definition cmd_set_in :: "string \<Rightarrow> string \<Rightarrow> string \<Rightarrow> host \<Rightarrow> host" where
  "cmd_set_in name v selection h =
     h\<lparr>objects := map (\<lambda>(k, ob). if k = selection
                          then (k, ob\<lparr>osettings := dict_set name v (osettings ob)\<rparr>)
                          else (k, ob)) (objects h)\<rparr>"

text \<open>\<open>cmd.get_area(name)\<close>: the engine's area of the object, an error without it.\<close>

definition cmd_get_area :: "engine \<Rightarrow> host \<Rightarrow> string \<Rightarrow> error + real" where
  "cmd_get_area E h name =
     (case map_of (objects h) name of
        None \<Rightarrow> Inl (CmdException ''get_area'')
      | Some ob \<Rightarrow> Inr (get_area E ob (settings h)))"

text \<open>
  \<open>cmd.delete(name)\<close>: removes the object, named selection or measurement object of
  that name.
\<close>

definition cmd_delete :: "string \<Rightarrow> host \<Rightarrow> host" where
  "cmd_delete name h =
     h\<lparr>objects := filter (\<lambda>(k, ob). k \<noteq> name) (objects h),
       selections := filter (\<lambda>(k, s). k \<noteq> name) (selections h),
       distances := filter (\<lambda>(k, s). k \<noteq> name) (distances h)\<rparr>"

text \<open>
  The host as \<open>get_sasa\<close> has prepared it when it calls \<open>cmd.get_area\<close>: the
  temporary object created and its settings made. When \<open>cmd.create\<close> raises, nothing
  has been done to the host.
\<close>

definition get_sasa_prepared ::
  "engine \<Rightarrow> host \<Rightarrow> string \<Rightarrow> int \<Rightarrow> int \<Rightarrow> error + host" where
  "get_sasa_prepared E h selection state dot_density =
     (let state = (if state < 1 then cur_state h else state);
          n = get_unused_name h ''_''
      in case cmd_create E n selection state h of
           Inl e \<Rightarrow> Inl e
         | Inr h1 \<Rightarrow>
            (let h2 = cmd_set_in ''dot_solvent'' ''1'' n h1
             in Inr (if dot_density > - 1
                     then cmd_set_in ''dot_density'' (str_int dot_density) n h2
                     else h2)))"

definition get_sasa ::
  "engine \<Rightarrow> host \<Rightarrow> string \<Rightarrow> int \<Rightarrow> int \<Rightarrow> (error + real) \<times> host" where
  "get_sasa E h selection state dot_density =
     (let n = get_unused_name h ''_''
      in case get_sasa_prepared E h selection state dot_density of
           Inl e \<Rightarrow> (Inl e, h)
         | Inr h3 \<Rightarrow>
            (case cmd_get_area E h3 n of
               Inl e \<Rightarrow> (Inl e, h3)
             | Inr r \<Rightarrow> (Inr r, cmd_delete n h3)))"

subsection \<open>print_dihedrals: the restraint limits\<close>
















section \<open>contactmap.py\<close>

text \<open>\<open>comp(thre, val)\<close>, for a finite threshold and a parsed probability.\<close>

definition comp :: "real \<Rightarrow> fl \<Rightarrow> bool" where
  "comp thre val =
     (case val of
        Fin v \<Rightarrow> thre - 1 / 10 ^ 12 < v
      | Infty neg \<Rightarrow> \<not> neg
      | NaN \<Rightarrow> False)"

text \<open>
  \<open>cmd.iterate(model, "stored.resdict[int(resi)] = resn")\<close>: the host runs the
  expression on every atom of the selection in turn. When \<open>int(resi)\<close> raises, the
  host stops, the assignments made so far stay, and the exception reaches the caller.
\<close>

fun fill_resdict :: "atom list \<Rightarrow> (int \<times> string) list \<Rightarrow> error option \<times> (int \<times> string) list" where
  "fill_resdict [] d = (None, d)"
| "fill_resdict (a # as) d =
     (case py_int (resi a) of
        Inl e \<Rightarrow> (Some e, d)
      | Inr n \<Rightarrow> fill_resdict as (dict_set n (resn a) d))"

text \<open>
  The three values read from one line of the alignment file: \<open>sec[1]\<close> and
  \<open>sec[2]\<close> shifted by the offset, and \<open>sec[4]\<close>, in the order in which the source
  evaluates them.
\<close>

definition field :: "string list \<Rightarrow> nat \<Rightarrow> error + string" where
  "field sec i = (if i < length sec then Inr (sec ! i) else Inl IndexError)"

definition int_field :: "string list \<Rightarrow> nat \<Rightarrow> error + int" where
  "int_field sec i = (case field sec i of Inl e \<Rightarrow> Inl e | Inr t \<Rightarrow> py_int t)"

definition float_field :: "string list \<Rightarrow> nat \<Rightarrow> error + fl" where
  "float_field sec i = (case field sec i of Inl e \<Rightarrow> Inl e | Inr t \<Rightarrow> py_float t)"

definition line_fields :: "int \<Rightarrow> string \<Rightarrow> error + (int \<times> int \<times> fl)" where
  "line_fields offset s =
     (let sec = split s in
      case int_field sec 1 of
        Inl e \<Rightarrow> Inl e
      | Inr a \<Rightarrow>
         (case int_field sec 2 of
            Inl e \<Rightarrow> Inl e
          | Inr b \<Rightarrow>
             (case float_field sec 4 of
                Inl e \<Rightarrow> Inl e
              | Inr probability \<Rightarrow> Inr (a + offset, b + offset, probability))))"

text \<open>The atom name used for a residue: \<open>CA\<close> for glycine, \<open>CB\<close> otherwise.\<close>

definition car :: "(int \<times> string) list \<Rightarrow> int \<Rightarrow> string" where
  "car d a = (if map_of d a = Some ''GLY'' then ''CA'' else ''CB'')"

text \<open>The arguments of the call of \<open>cmd.distance\<close> for the residues \<open>a\<close> and \<open>b\<close>.\<close>

definition distance_args ::
  "string \<Rightarrow> string \<Rightarrow> (int \<times> string) list \<Rightarrow> int \<Rightarrow> int \<Rightarrow> string \<times> string \<times> string" where
  "distance_args model chain d a b =
     (str_int a @ ''_'' @ str_int b @ ''_'' @ model,
      ''/'' @ model @ ''//'' @ chain @ ''/'' @ str_int a @ ''/'' @ car d a,
      ''/'' @ model @ ''//'' @ chain @ ''/'' @ str_int b @ ''/'' @ car d b)"

text \<open>
  The loop over the lines of the file. \<open>cmd.distance\<close> adds a measurement object to
  the host. An exception leaves the loop with the objects made so far in place.
\<close>

fun contact_lines ::
  "string \<Rightarrow> string \<Rightarrow> real \<Rightarrow> int \<Rightarrow> string list \<Rightarrow> host \<Rightarrow> (error + unit) \<times> host" where
  "contact_lines model chain pcut offset [] h = (Inr (), h)"
| "contact_lines model chain pcut offset (s # l) h =
     (case line_fields offset s of
        Inl e \<Rightarrow> (Inl e, h)
      | Inr (a, b, probability) \<Rightarrow>
          if \<not> comp pcut probability then contact_lines model chain pcut offset l h
          else if a * b = 0 then contact_lines model chain pcut offset l h
          else if a \<notin> fst ` set (resdict h) \<or> b \<notin> fst ` set (resdict h)
            then contact_lines model chain pcut offset l h
          else contact_lines model chain pcut offset l
                 (h\<lparr>distances := distances h @ [distance_args model chain (resdict h) a b]\<rparr>))"

text \<open>\<open>cmd.set(name, value)\<close> without a selection: a global setting.\<close>

definition cmd_set :: "string \<Rightarrow> string \<Rightarrow> host \<Rightarrow> host" where
  "cmd_set name v h = h\<lparr>settings := dict_set name v (settings h)\<rparr>"

text \<open>
  \<open>contactmap\<close>, given the lines of the file \<open>align\<close>. \<open>pcut\<close> is a float and
  \<open>offset\<close> an integer, as their defaults are.
\<close>

definition contactmap ::
  "engine \<Rightarrow> host \<Rightarrow> string \<Rightarrow> string \<Rightarrow> string list \<Rightarrow> real \<Rightarrow> int \<Rightarrow> (error + unit) \<times> host" where
  "contactmap E h selection chain align pcut offset =
     (if selection = '''' then (Inl (CmdException ''''), h)
      else
        (case fill_resdict (iterate E h selection) [] of
           (Some e, d) \<Rightarrow> (Inl e, h\<lparr>resdict := d\<rparr>)
         | (None, d) \<Rightarrow>
            (case contact_lines selection chain pcut offset align (h\<lparr>resdict := d\<rparr>) of
               (Inl e, h') \<Rightarrow> (Inl e, h')
             | (Inr u, h') \<Rightarrow>
                 (Inr (),
                  cmd_set ''dash_gap'' ''0.05''
                    (cmd_set ''dash_radius'' ''0.1'' (cmd_set ''dash_color'' ''cyan'' h'))))))"

text \<open>
  The condition under which a line of the alignment file gets a distance object, in the
  words of the description of \<open>contactmap\<close>, with the comparison the code makes: the
  probability exceeds the cutoff minus the tolerance, both shifted residue numbers are
  non-zero, and both are residue numbers of the model.
\<close>

definition line_accepted :: "real \<Rightarrow> int \<Rightarrow> int set \<Rightarrow> string \<Rightarrow> bool" where
  "line_accepted pcut offset resnums s =
     (case line_fields offset s of
        Inl e \<Rightarrow> False
      | Inr (a, b, probability) \<Rightarrow>
          (case probability of
             Fin v \<Rightarrow> pcut - 1 / 10 ^ 12 < v
           | Infty neg \<Rightarrow> \<not> neg
           | NaN \<Rightarrow> False)
          \<and> a \<noteq> 0 \<and> b \<noteq> 0 \<and> a \<in> resnums \<and> b \<in> resnums)"

text \<open>The distance object that belongs to an accepted line.\<close>

definition line_distance ::
  "string \<Rightarrow> string \<Rightarrow> (int \<times> string) list \<Rightarrow> int \<Rightarrow> string \<Rightarrow> string \<times> string \<times> string" where
  "line_distance model chain d offset s =
     (case line_fields offset s of
        Inl e \<Rightarrow> ([], [], [])
      | Inr (a, b, probability) \<Rightarrow> distance_args model chain d a b)"

section \<open>electrostatics.py\<close>











section \<open>xtal.py\<close>

subsection \<open>cellbasis\<close>

definition radians :: "real \<Rightarrow> real" where
  "radians x = x * pi / 180"

text \<open>
  \<open>basis * edges\<close> for the 4x4 array \<open>basis\<close> and the list \<open>edges\<close>: numpy
  multiplies entry \<open>j\<close> of every row by \<open>edges[j]\<close> when the list has four entries,
  every entry by \<open>edges[0]\<close> when it has one, and raises \<open>ValueError\<close> for any other
  length.
\<close>

definition broadcastable :: "real list \<Rightarrow> bool" where
  "broadcastable edges = (length edges = 4 \<or> length edges = 1)"

definition times_edges :: "real list list \<Rightarrow> real list \<Rightarrow> error + real list list" where
  "times_edges basis edges =
     (if \<not> broadcastable edges then Inl ValueError
      else if length edges = 4
        then Inr (map (\<lambda>row. map (\<lambda>(x, e). x * e) (zip row edges)) basis)
      else Inr (map (map (\<lambda>x. x * edges ! 0)) basis))"

text \<open>
  \<open>cellbasis(angles, edges)\<close>: the result, and the list \<open>edges\<close> as the call leaves
  it. Reading \<open>rad[2]\<close> of fewer than three angles raises \<open>IndexError\<close>. The division
  by \<open>basis[1][1]\<close> is one of numpy floats and does not raise: with a zero divisor it
  gives NaN for a zero dividend, and then the returned array holds NaN (\<open>NonFinite\<close>
  below, when the shapes fit), and an infinity otherwise, and then \<open>math.sqrt\<close> gets
  minus infinity and raises \<open>ValueError\<close> like for any negative argument.
\<close>

datatype basis_result = Basis "real list list" | NonFinite | Raised error

definition cellbasis :: "real list \<Rightarrow> real list \<Rightarrow> basis_result \<times> real list" where
  "cellbasis angles edges =
     (if length angles < 3 then (Raised IndexError, edges)
      else
        (let rad = map radians angles;
             b01 = cos (rad ! 2);
             b11 = sin (rad ! 2);
             b02 = cos (rad ! 1);
             num = cos (rad ! 0) - b01 * b02
         in if b11 = 0 then
              (if num = 0 then
                 (if broadcastable (edges @ [1]) then (NonFinite, edges @ [1])
                  else (Raised ValueError, edges @ [1]))
               else (Raised ValueError, edges))
            else
              (let b12 = num / b11;
                   arg = 1 - b02\<^sup>2 - b12\<^sup>2
               in if arg < 0 then (Raised ValueError, edges)
                  else
                    (let b22 = sqrt arg;
                         basis = [[1, b01, b02, 0],
                                  [0, b11, b12, 0],
                                  [0, 0, b22, 0],
                                  [0, 0, 0, 1]]
                     in case times_edges basis (edges @ [1]) of
                          Inl e \<Rightarrow> (Raised e, edges @ [1])
                        | Inr m \<Rightarrow> (Basis m, edges @ [1])))))"

text \<open>
  The geometry of the result: the first three entries of a column of the matrix, the
  Euclidean norm, and the angle between two vectors in degrees.
\<close>

definition column :: "nat \<Rightarrow> real list list \<Rightarrow> vec" where
  "column j m = (m ! 0 ! j, m ! 1 ! j, m ! 2 ! j)"

definition norm3 :: "vec \<Rightarrow> real" where
  "norm3 v = sqrt (dot_product v v)"

definition angle_deg :: "vec \<Rightarrow> vec \<Rightarrow> real" where
  "angle_deg u v = arccos (dot_product u v / (norm3 u * norm3 v)) * 180 / pi"

text \<open>The argument of the square root in \<open>cellbasis\<close>, for angles in degrees.\<close>

definition sqrt_arg :: "real \<Rightarrow> real \<Rightarrow> real \<Rightarrow> real" where
  "sqrt_arg alpha beta gamma =
     1 - (cos (radians beta))\<^sup>2
       - ((cos (radians alpha) - cos (radians gamma) * cos (radians beta)) / sin (radians gamma))\<^sup>2"

text \<open>
  The angles for which \<open>cellbasis\<close> gets as far as \<open>edges.append(1.0)\<close>: three of
  them, and either the square root has a non-negative argument or the division was 0/0.
\<close>

definition basis_defined :: "real list \<Rightarrow> bool" where
  "basis_defined angles =
     (3 \<le> length angles \<and>
      (if sin (radians (angles ! 2)) = 0
       then cos (radians (angles ! 0))
              - cos (radians (angles ! 2)) * cos (radians (angles ! 1)) = 0
       else 0 \<le> sqrt_arg (angles ! 0) (angles ! 1) (angles ! 2)))"

subsection \<open>pdbremarks\<close>

text \<open>
  The loop of \<open>pdbremarks\<close> over the lines that the file object yields (text lines, each
  with its line end), adding to the dictionary \<open>remarks\<close>.
\<close>

fun remarks_loop :: "string list \<Rightarrow> (int \<times> string list) list \<Rightarrow> error + (int \<times> string list) list" where
  "remarks_loop [] remarks = Inr remarks"
| "remarks_loop (line # f) remarks =
     (let recname = slice 0 6 line in
      if recname = ''REMARK'' then
        (case py_int (slice 7 10 line) of
           Inl e \<Rightarrow> Inl e
         | Inr num \<Rightarrow> remarks_loop f (dict_append num (drop 11 line) remarks))
      else remarks_loop f remarks)"

definition pdbremarks :: "string list \<Rightarrow> error + (int \<times> string list) list" where
  "pdbremarks f = remarks_loop f []"

section \<open>Fixed inputs used to evaluate the functions\<close>

text \<open>
  An engine that answers every selection with the same atoms in a single state; it is
  used to run the functions on concrete inputs.
\<close>

definition fixed_engine :: "atom list \<Rightarrow> engine" where
  "fixed_engine atoms =
     \<lparr>resolves = (\<lambda>h selection. True),
      get_model = (\<lambda>h selection state. atoms),
      count_states = (\<lambda>h selection. 1),
      iterate = (\<lambda>h selection. atoms),
      get_area = (\<lambda>obj glob. real (length (concat (ostates obj))))\<rparr>"

definition empty_host :: host where
  "empty_host =
     \<lparr>cur_state = 1, objects = [], settings = [], selections = [], feedback = [],
      distances = [], resdict = []\<rparr>"

text \<open>
  A host in use: two objects, one of them under the first name that
  \<open>get_unused_name\<close> tries, global settings that include a dash colour, a named
  selection, a pushed feedback mask, a measurement object and an earlier
  \<open>stored.resdict\<close>.
\<close>

definition busy_host :: host where
  "busy_host =
     \<lparr>cur_state = 2,
      objects = [(''m'', \<lparr>ostates = [[], []], osettings = [(''dot_density'', ''2'')]\<rparr>),
                 (''_01'', \<lparr>ostates = [[]], osettings = []\<rparr>)],
      settings = [(''dash_color'', ''red''), (''bg_rgb'', ''white'')],
      selections = [(''sele'', ''chain A'')],
      feedback = [[''selector'']],
      distances = [(''d1'', ''/m//A/1/CA'', ''/m//A/2/CA'')],
      resdict = [(1, ''SER'')]\<rparr>"

text \<open>An engine that can resolve the selections of a given list only.\<close>

definition knowing_engine :: "string list \<Rightarrow> atom list \<Rightarrow> engine" where
  "knowing_engine known atoms =
     \<lparr>resolves = (\<lambda>h selection. selection \<in> set known),
      get_model = (\<lambda>h selection state. atoms),
      count_states = (\<lambda>h selection. 1),
      iterate = (\<lambda>h selection. atoms),
      get_area = (\<lambda>obj glob. real (length (concat (ostates obj))))\<rparr>"

definition atom_at :: "real \<Rightarrow> real \<Rightarrow> atom" where
  "atom_at px occ = \<lparr>resi = ''1'', resn = ''ALA'', coord = (px, 0, 0), mass = 1, q = occ\<rparr>"

definition res_atom :: "string \<Rightarrow> string \<Rightarrow> atom" where
  "res_atom i n = \<lparr>resi = i, resn = n, coord = (0, 0, 0), mass = 12, q = 1\<rparr>"

section \<open>Verified properties\<close>

subsection \<open>querying.py: restraint limits\<close>














subsection \<open>querying.py: centerofmass and gyradius\<close>

lemma sum_list_all_zero:
  fixes f :: "'a \<Rightarrow> real"
  assumes "\<And>x. x \<in> set xs \<Longrightarrow> f x = 0"
  shows "sum_list (map f xs) = 0"
  using assms by (induction xs) auto

lemma fold_com_atom_mass:
  "snd (fold com_atom atoms (c, t)) = t + sum_list (map (\<lambda>a. mass a * q a) atoms)"
  by (induction atoms arbitrary: c t) (auto simp: com_atom_def Let_def)

lemma com_loop_states_mass:
  "snd (fold (\<lambda>state acc. fold com_atom (get_model E h selection state) acc) states (c, t)) =
     t + sum_list (map (\<lambda>state. sum_list (map (\<lambda>a. mass a * q a) (get_model E h selection state)))
           states)"
proof (induction states arbitrary: c t)
  case Nil
  show ?case by simp
next
  case (Cons s states)
  obtain c' t' where step: "fold com_atom (get_model E h selection s) (c, t) = (c', t')"
    by (cases "fold com_atom (get_model E h selection s) (c, t)")
  have "t' = t + sum_list (map (\<lambda>a. mass a * q a) (get_model E h selection s))"
    using fold_com_atom_mass [of "get_model E h selection s" c t] step by simp
  then show ?case
    using Cons.IH [of c' t'] step by simp
qed

lemma com_loop_mass:
  "snd (com_loop E h selection states) =
     sum_list (map (\<lambda>state. sum_list (map (\<lambda>a. mass a * q a) (get_model E h selection state)))
       states)"
  unfolding com_loop_def get_null_def
  using com_loop_states_mass [of E h selection states "(0, 0, 0)" 0] by simp

text \<open>
  Claim C9. \<open>centerofmass\<close> raises \<open>ZeroDivisionError\<close> exactly when the total
  weighted mass (the sum over the processed states and atoms of mass times occupancy) is
  zero; in particular it does so for an empty selection and for a selection in which
  every atom has occupancy zero. It then returns neither a coordinate nor another error.
\<close>

theorem centerofmass_zero_mass:
  "(centerofmass E h selection state = Inl ZeroDivisionError \<longleftrightarrow>
      sum_list (map (\<lambda>st. sum_list (map (\<lambda>a. mass a * q a) (get_model E h selection st)))
        (state_list E h selection state)) = 0)
   \<and> ((\<forall>st \<in> set (state_list E h selection state).
         \<forall>a \<in> set (get_model E h selection st). q a = 0)
       \<longrightarrow> centerofmass E h selection state = Inl ZeroDivisionError)"
proof -
  let ?states = "state_list E h selection state"
  let ?total = "sum_list (map (\<lambda>st. sum_list (map (\<lambda>a. mass a * q a) (get_model E h selection st)))
        ?states)"
  obtain com totmass where loop: "com_loop E h selection ?states = (com, totmass)"
    by (cases "com_loop E h selection ?states")
  have tot: "totmass = ?total"
    using com_loop_mass [of E h selection ?states] loop by simp
  have iff: "centerofmass E h selection state = Inl ZeroDivisionError \<longleftrightarrow> ?total = 0"
    using loop tot by (simp add: centerofmass_def)
  have "?total = 0"
    if allz: "\<forall>st \<in> set ?states. \<forall>a \<in> set (get_model E h selection st). q a = 0"
  proof -
    have "sum_list (map (\<lambda>a. mass a * q a) (get_model E h selection st)) = 0"
      if "st \<in> set ?states" for st
      using allz that by (intro sum_list_all_zero) auto
    then show ?thesis
      by (rule sum_list_all_zero)
  qed
  with iff show ?thesis by blast
qed

theorem centerofmass_zero_mass_witness:
  "state_list (fixed_engine [atom_at 1 0, atom_at 2 0]) empty_host ''all'' 0 = [1]
   \<and> map q (get_model (fixed_engine [atom_at 1 0, atom_at 2 0]) empty_host ''all'' 1) = [0, 0]
   \<and> centerofmass (fixed_engine [atom_at 1 0, atom_at 2 0]) empty_host ''all'' 0
       = Inl ZeroDivisionError
   \<and> get_model (fixed_engine []) empty_host ''all'' 1 = []
   \<and> centerofmass (fixed_engine []) empty_host ''all'' (- 1) = Inl ZeroDivisionError
   \<and> centerofmass (fixed_engine [atom_at 1 1, atom_at 2 1]) empty_host ''all'' 0
       = Inr (3 / 2, 0, 0)"
proof -
  have s: "state_list (fixed_engine [atom_at 1 0, atom_at 2 0]) empty_host ''all'' 0 = [1]"
    by (simp add: state_list_def fixed_engine_def upto.simps)
  have m: "map q (get_model (fixed_engine [atom_at 1 0, atom_at 2 0]) empty_host ''all'' 1) = [0, 0]"
    by (simp add: fixed_engine_def atom_at_def)
  have q0: "\<forall>st \<in> set (state_list (fixed_engine [atom_at 1 0, atom_at 2 0]) empty_host ''all'' 0).
      \<forall>a \<in> set (get_model (fixed_engine [atom_at 1 0, atom_at 2 0]) empty_host ''all'' st). q a = 0"
    by (simp add: fixed_engine_def atom_at_def)
  have e: "\<forall>st \<in> set (state_list (fixed_engine []) empty_host ''all'' (- 1)).
      \<forall>a \<in> set (get_model (fixed_engine []) empty_host ''all'' st). q a = 0"
    by (simp add: fixed_engine_def)
  have g: "get_model (fixed_engine []) empty_host ''all'' 1 = []"
    by (simp add: fixed_engine_def)
  have run: "centerofmass (fixed_engine [atom_at 1 1, atom_at 2 1]) empty_host ''all'' 0
       = Inr (3 / 2, 0, 0)"
    by (simp add: centerofmass_def com_loop_def state_list_def fixed_engine_def atom_at_def
        com_atom_def get_null_def upto.simps)
  show ?thesis
    using s m g q0 e run
      centerofmass_zero_mass [of "fixed_engine [atom_at 1 0, atom_at 2 0]" empty_host "''all''" 0]
      centerofmass_zero_mass [of "fixed_engine []" empty_host "''all''" "- 1"]
    by blast
qed

text \<open>
  Claim C6. In \<open>gyradius\<close> the list of weights leaves out the atoms with occupancy
  zero while the list of coordinates keeps them, and the two are paired by position.
  For three atoms on the x axis at 0 (occupancy 0), 2 and 6 (occupancy 1, mass 1) the
  weights of the second and third atom are paired with the coordinates of the first and
  second: the function returns 1, where the mass- and occupancy-weighted radius of
  gyration is 2.
\<close>

theorem gyradius_misaligned_weights:
  "gyradius (fixed_engine [atom_at 0 0, atom_at 2 1, atom_at 6 1]) empty_host ''all'' 1 1
     = Inr (PyFloat 1)
   \<and> weighted_rg_sq [atom_at 0 0, atom_at 2 1, atom_at 6 1] = 4
   \<and> rg_sq [atom_at 0 0, atom_at 2 1, atom_at 6 1] = Inr 1
   \<and> rg_sq [atom_at 2 1, atom_at 6 1] = Inr 4"
proof -
  have a: "rg_sq [atom_at 0 0, atom_at 2 1, atom_at 6 1] = Inr 1"
    by (simp add: rg_sq_def atom_at_def Let_def power2_eq_square)
  have b: "rg_sq [atom_at 2 1, atom_at 6 1] = Inr 4"
    by (simp add: rg_sq_def atom_at_def Let_def power2_eq_square)
  have c: "weighted_rg_sq [atom_at 0 0, atom_at 2 1, atom_at 6 1] = 4"
    by (simp add: weighted_rg_sq_def atom_at_def Let_def get_null_def)
  have d: "gyradius (fixed_engine [atom_at 0 0, atom_at 2 1, atom_at 6 1]) empty_host ''all'' 1 1
     = Inr (PyFloat 1)"
    using a by (simp add: gyradius_def state_list_def fixed_engine_def)
  from a b c d show ?thesis by blast
qed

subsection \<open>xtal.py: pdbremarks\<close>

lemma map_of_dict_append:
  "map_of (dict_append k v d) =
     (map_of d)(k \<mapsto> (case map_of d k of None \<Rightarrow> [] | Some vs \<Rightarrow> vs) @ [v])"
  by (induction d) (auto simp: fun_eq_iff)

lemma map_fst_dict_append:
  "map fst (dict_append k v d) = (if k \<in> fst ` set d then map fst d else map fst d @ [k])"
  by (induction d) (force simp: image_iff)+

lemma keys_dict_append: "fst ` set (dict_append k v d) = insert k (fst ` set d)"
proof -
  have "set (map fst (dict_append k v d)) = insert k (set (map fst d))"
    unfolding map_fst_dict_append by auto
  then show ?thesis by simp
qed

lemma distinct_dict_append:
  "distinct (map fst d) \<Longrightarrow> distinct (map fst (dict_append k v d))"
  unfolding map_fst_dict_append by auto

lemma py_int_error: "py_int s = Inl e \<Longrightarrow> e = ValueError"
  by (auto simp: py_int_def split: prod.splits if_splits)

lemma remarks_loop_ok:
  assumes "\<forall>line \<in> set f. slice 0 6 line = ''REMARK'' \<longrightarrow> (\<exists>n. py_int (slice 7 10 line) = Inr n)"
    and "distinct (map fst acc)"
  shows "\<exists>remarks. remarks_loop f acc = Inr remarks \<and> distinct (map fst remarks)
     \<and> fst ` set remarks = fst ` set acc \<union>
          {n. \<exists>line \<in> set f. slice 0 6 line = ''REMARK'' \<and> py_int (slice 7 10 line) = Inr n}
     \<and> (\<forall>n. map_of remarks n =
          (let new = map (drop 11)
                 (filter (\<lambda>line. slice 0 6 line = ''REMARK'' \<and> py_int (slice 7 10 line) = Inr n) f)
           in if new = [] then map_of acc n
              else Some ((case map_of acc n of None \<Rightarrow> [] | Some vs \<Rightarrow> vs) @ new)))"
  using assms
proof (induction f arbitrary: acc)
  case Nil
  then show ?case by simp
next
  case (Cons line f)
  show ?case
  proof (cases "slice 0 6 line = ''REMARK''")
    case False
    with Cons.IH [of acc] Cons.prems show ?thesis by (auto simp: Let_def)
  next
    case True
    with Cons.prems obtain num where num: "py_int (slice 7 10 line) = Inr num" by auto
    let ?acc = "dict_append num (drop 11 line) acc"
    have d: "distinct (map fst ?acc)" using Cons.prems(2) by (rule distinct_dict_append)
    from Cons.IH [OF _ d] Cons.prems(1)
    obtain remarks where r: "remarks_loop f ?acc = Inr remarks" "distinct (map fst remarks)"
      "fst ` set remarks = fst ` set ?acc \<union>
          {n. \<exists>line \<in> set f. slice 0 6 line = ''REMARK'' \<and> py_int (slice 7 10 line) = Inr n}"
      "\<forall>n. map_of remarks n =
          (let new = map (drop 11)
                 (filter (\<lambda>line. slice 0 6 line = ''REMARK'' \<and> py_int (slice 7 10 line) = Inr n) f)
           in if new = [] then map_of ?acc n
              else Some ((case map_of ?acc n of None \<Rightarrow> [] | Some vs \<Rightarrow> vs) @ new))"
      by auto
    have 1: "remarks_loop (line # f) acc = Inr remarks"
      using True num r(1) by (simp add: Let_def)
    have 2: "fst ` set remarks = fst ` set acc \<union>
          {n. \<exists>l \<in> set (line # f). slice 0 6 l = ''REMARK'' \<and> py_int (slice 7 10 l) = Inr n}"
      using r(3) True num by (auto simp: keys_dict_append)
    have 3: "map_of remarks n =
          (let new = map (drop 11)
                 (filter (\<lambda>l. slice 0 6 l = ''REMARK'' \<and> py_int (slice 7 10 l) = Inr n) (line # f))
           in if new = [] then map_of acc n
              else Some ((case map_of acc n of None \<Rightarrow> [] | Some vs \<Rightarrow> vs) @ new))" for n
      using r(4) True num
      by (cases "n = num") (auto simp: map_of_dict_append Let_def split: option.splits)
    from 1 2 3 r(2) show ?thesis by blast
  qed
qed

lemma remarks_loop_bad:
  assumes "\<exists>line \<in> set f. slice 0 6 line = ''REMARK'' \<and> (\<forall>n. py_int (slice 7 10 line) \<noteq> Inr n)"
  shows "remarks_loop f acc = Inl ValueError"
  using assms
proof (induction f arbitrary: acc)
  case Nil
  then show ?case by simp
next
  case (Cons line f)
  show ?case
  proof (cases "slice 0 6 line = ''REMARK''")
    case False
    with Cons show ?thesis by (auto simp: Let_def)
  next
    case True
    show ?thesis
    proof (cases "py_int (slice 7 10 line)")
      case (Inl e)
      then show ?thesis using True py_int_error [OF Inl] by (simp add: Let_def)
    next
      case (Inr num)
      with Cons True show ?thesis by (auto simp: Let_def)
    qed
  qed
qed

text \<open>
  Claim C3 (as amended). When the characters 7 to 9 of every line that starts with
  \<open>REMARK\<close> are an integer for \<open>int()\<close>, \<open>pdbremarks\<close> returns a dictionary whose
  keys are exactly those integers, each mapped to the remainders (from position 11 on) of
  its lines in file order; lines that do not start with \<open>REMARK\<close> contribute nothing.
  Otherwise it raises \<open>ValueError\<close> and returns no dictionary.
\<close>

theorem pdbremarks_parses:
  "((\<forall>line \<in> set f. slice 0 6 line = ''REMARK'' \<longrightarrow> (\<exists>n. py_int (slice 7 10 line) = Inr n)) \<longrightarrow>
      (\<exists>remarks. pdbremarks f = Inr remarks \<and> distinct (map fst remarks)
         \<and> fst ` set remarks =
             {n. \<exists>line \<in> set f. slice 0 6 line = ''REMARK'' \<and> py_int (slice 7 10 line) = Inr n}
         \<and> (\<forall>n \<in> fst ` set remarks.
               map_of remarks n =
                 Some (map (drop 11)
                   (filter (\<lambda>line. slice 0 6 line = ''REMARK'' \<and> py_int (slice 7 10 line) = Inr n) f)))))
   \<and> ((\<exists>line \<in> set f. slice 0 6 line = ''REMARK'' \<and> (\<forall>n. py_int (slice 7 10 line) \<noteq> Inr n)) \<longrightarrow>
        pdbremarks f = Inl ValueError)"
proof (intro conjI impI)
  assume ok: "\<forall>line \<in> set f. slice 0 6 line = ''REMARK'' \<longrightarrow> (\<exists>n. py_int (slice 7 10 line) = Inr n)"
  let ?of = "\<lambda>n. map (drop 11)
      (filter (\<lambda>line. slice 0 6 line = ''REMARK'' \<and> py_int (slice 7 10 line) = Inr n) f)"
  from remarks_loop_ok [OF ok, of "[]"]
  obtain remarks where r: "remarks_loop f [] = Inr remarks" "distinct (map fst remarks)"
    "fst ` set remarks =
       {n. \<exists>line \<in> set f. slice 0 6 line = ''REMARK'' \<and> py_int (slice 7 10 line) = Inr n}"
    "\<forall>n. map_of remarks n = (if ?of n = [] then None else Some (?of n))"
    by (auto simp: Let_def)
  have "map_of remarks n = Some (?of n)" if "n \<in> fst ` set remarks" for n
  proof -
    from that r(3) obtain line where "line \<in> set f" "slice 0 6 line = ''REMARK''"
      "py_int (slice 7 10 line) = Inr n" by auto
    then have "?of n \<noteq> []" by (auto simp: filter_empty_conv)
    with r(4) show ?thesis by simp
  qed
  with r(1-3) show "\<exists>remarks. pdbremarks f = Inr remarks \<and> distinct (map fst remarks)
         \<and> fst ` set remarks =
             {n. \<exists>line \<in> set f. slice 0 6 line = ''REMARK'' \<and> py_int (slice 7 10 line) = Inr n}
         \<and> (\<forall>n \<in> fst ` set remarks. map_of remarks n = Some (?of n))"
    unfolding pdbremarks_def by blast
next
  assume "\<exists>line \<in> set f. slice 0 6 line = ''REMARK'' \<and> (\<forall>n. py_int (slice 7 10 line) \<noteq> Inr n)"
  then show "pdbremarks f = Inl ValueError"
    unfolding pdbremarks_def by (rule remarks_loop_bad)
qed

lemmas py_eval =
  py_int_def py_float_def py_number_def py_exponent_def pow10_def lower_def is_e_def strip_def
  is_space_def is_num_space_def split_sign_def is_digit_def read_digits_def digit_val_def
  slice_def split_def

theorem pdbremarks_parses_witness:
  "pdbremarks
     [''HEADER    VIRUS'',
      ''REMARK 350 BIOMOLECULE: 1'',
      ''REMARK   2 RESOLUTION. 2.9 ANGSTROMS.'',
      ''REMARK 350 APPLY THE FOLLOWING TO CHAINS: A'',
      ''ATOM      1  N   SER A   1''] =
     Inr [(350, [''BIOMOLECULE: 1'', ''APPLY THE FOLLOWING TO CHAINS: A'']),
          (2, [''RESOLUTION. 2.9 ANGSTROMS.''])]
   \<and> map (\<lambda>line. py_int (slice 7 10 line))
       (filter (\<lambda>line. slice 0 6 line = ''REMARK'')
          [''HEADER    VIRUS'',
           ''REMARK 350 BIOMOLECULE: 1'',
           ''REMARK   2 RESOLUTION. 2.9 ANGSTROMS.'',
           ''REMARK 350 APPLY THE FOLLOWING TO CHAINS: A'',
           ''ATOM      1  N   SER A   1'']) = [Inr 350, Inr 2, Inr 350]
   \<and> pdbremarks [''REMARK 350 BIOMOLECULE: 1'', ''REMARK END''] = Inl ValueError"
proof -
  let ?f = "[''HEADER    VIRUS'',
      ''REMARK 350 BIOMOLECULE: 1'',
      ''REMARK   2 RESOLUTION. 2.9 ANGSTROMS.'',
      ''REMARK 350 APPLY THE FOLLOWING TO CHAINS: A'',
      ''ATOM      1  N   SER A   1'']"
  have nums: "map (\<lambda>line. py_int (slice 7 10 line))
       (filter (\<lambda>line. slice 0 6 line = ''REMARK'') ?f) = [Inr 350, Inr 2, Inr 350]"
    by (simp add: py_eval)
  have ok: "\<forall>line \<in> set ?f. slice 0 6 line = ''REMARK'' \<longrightarrow> (\<exists>n. py_int (slice 7 10 line) = Inr n)"
    by (simp add: py_eval)
  have run: "pdbremarks ?f =
     Inr [(350, [''BIOMOLECULE: 1'', ''APPLY THE FOLLOWING TO CHAINS: A'']),
          (2, [''RESOLUTION. 2.9 ANGSTROMS.''])]"
    by (simp add: pdbremarks_def py_eval)
  have bad: "\<exists>line \<in> set [''REMARK 350 BIOMOLECULE: 1'', ''REMARK END''].
      slice 0 6 line = ''REMARK'' \<and> (\<forall>n. py_int (slice 7 10 line) \<noteq> Inr n)"
    by (simp add: py_eval)
  from pdbremarks_parses [of "[''REMARK 350 BIOMOLECULE: 1'', ''REMARK END'']"] bad
  have "pdbremarks [''REMARK 350 BIOMOLECULE: 1'', ''REMARK END''] = Inl ValueError"
    by blast
  with nums run ok pdbremarks_parses [of ?f] show ?thesis by blast
qed

text \<open>
  Claim C3 as stated fails: a file with a \<open>REMARK\<close> line that carries no number in
  characters 7 to 9 makes \<open>pdbremarks\<close> raise; no dictionary is returned.
\<close>

theorem pdbremarks_counterexample:
  "slice 0 6 ''REMARK Written by a modelling program'' = ''REMARK''
   \<and> pdbremarks [''REMARK Written by a modelling program''] = Inl ValueError"
  by (simp add: pdbremarks_def py_eval)

subsection \<open>contactmap.py\<close>

lemma map_fst_dict_set:
  "map fst (dict_set k v d) = (if k \<in> fst ` set d then map fst d else map fst d @ [k])"
  by (induction d) (force simp: image_iff)+

lemma keys_dict_set: "fst ` set (dict_set k v d) = insert k (fst ` set d)"
proof -
  have "set (map fst (dict_set k v d)) = insert k (set (map fst d))"
    unfolding map_fst_dict_set by auto
  then show ?thesis by simp
qed


lemma fill_resdict_ok:
  assumes "\<forall>a \<in> set atoms. \<exists>n. py_int (resi a) = Inr n"
  shows "\<exists>d'. fill_resdict atoms d = (None, d')
           \<and> fst ` set d' = fst ` set d \<union> {n. \<exists>a \<in> set atoms. py_int (resi a) = Inr n}"
  using assms
proof (induction atoms arbitrary: d)
  case Nil
  then show ?case by simp
next
  case (Cons a atoms)
  then obtain n where n: "py_int (resi a) = Inr n" by auto
  from Cons.IH [of "dict_set n (resn a) d"] Cons.prems
  obtain d' where "fill_resdict atoms (dict_set n (resn a) d) = (None, d')"
    "fst ` set d' = fst ` set (dict_set n (resn a) d)
        \<union> {n. \<exists>a \<in> set atoms. py_int (resi a) = Inr n}"
    by auto
  with n show ?case by (auto simp: keys_dict_set)
qed


lemma contact_lines_ok:
  assumes "\<forall>s \<in> set l. \<exists>t. line_fields offset s = Inr t"
  shows "contact_lines model chain pcut offset l h =
           (Inr (),
            h\<lparr>distances := distances h @
                 map (line_distance model chain (resdict h) offset)
                   (filter (line_accepted pcut offset (fst ` set (resdict h))) l)\<rparr>)"
  using assms
proof (induction l arbitrary: h)
  case Nil
  then show ?case by simp
next
  case (Cons s l)
  then obtain a b p where t: "line_fields offset s = Inr (a, b, p)"
    by (metis list.set_intros(1) prod_cases3)
  have rest: "\<forall>s \<in> set l. \<exists>t. line_fields offset s = Inr t"
    using Cons.prems by simp
  let ?h1 = "h\<lparr>distances := distances h @ [distance_args model chain (resdict h) a b]\<rparr>"
  have acc: "line_accepted pcut offset (fst ` set (resdict h)) s \<longleftrightarrow>
      comp pcut p \<and> a * b \<noteq> 0 \<and> a \<in> fst ` set (resdict h) \<and> b \<in> fst ` set (resdict h)"
    using t by (simp add: line_accepted_def comp_def split: fl.splits)
  show ?case
  proof (cases "line_accepted pcut offset (fst ` set (resdict h)) s")
    case False
    then have "contact_lines model chain pcut offset (s # l) h
        = contact_lines model chain pcut offset l h"
      using t acc by auto
    then show ?thesis
      using Cons.IH [OF rest, of h] False by simp
  next
    case True
    then have "contact_lines model chain pcut offset (s # l) h
        = contact_lines model chain pcut offset l ?h1"
      using t acc by auto
    moreover have "line_distance model chain (resdict h) offset s
        = distance_args model chain (resdict h) a b"
      using t by (simp add: line_distance_def)
    ultimately show ?thesis
      using Cons.IH [OF rest, of ?h1] True by simp
  qed
qed

lemma contact_lines_bad:
  assumes "\<exists>s \<in> set l. \<exists>e. line_fields offset s = Inl e"
  shows "\<exists>e h'. contact_lines model chain pcut offset l h = (Inl e, h')"
  using assms
proof (induction l arbitrary: h)
  case Nil
  then show ?case by simp
next
  case (Cons s l)
  show ?case
  proof (cases "line_fields offset s")
    case (Inl e)
    then show ?thesis by simp
  next
    case (Inr t)
    obtain a b p where t: "t = (a, b, p)" by (cases t)
    from Cons.prems Inr have rest: "\<exists>s \<in> set l. \<exists>e. line_fields offset s = Inl e" by auto
    show ?thesis
      using Inr t Cons.IH [OF rest] by simp
  qed
qed

text \<open>
  Claim C4 (as amended). For a model whose residue identifiers are integers,
  \<open>contactmap\<close> on a file in which every line has its second and third field an
  integer and its fifth a float creates one distance object per line, in file order, for
  exactly the lines whose probability is greater than \<open>pcut - 1e-12\<close>, whose two
  shifted residue numbers are both non-zero and both among the residue numbers of the
  model; the other lines are skipped. A line without these fields is not skipped: it ends
  the command with an exception.
\<close>

theorem contactmap_accepted_lines:
  assumes "selection \<noteq> ''''"
    and "\<forall>a \<in> set (iterate E h selection). \<exists>n. py_int (resi a) = Inr n"
  shows "((\<forall>s \<in> set align. \<exists>t. line_fields offset s = Inr t) \<longrightarrow>
           (\<exists>h'. contactmap E h selection chain align pcut offset = (Inr (), h')
              \<and> fst ` set (resdict h')
                   = {n. \<exists>a \<in> set (iterate E h selection). py_int (resi a) = Inr n}
              \<and> distances h' = distances h @
                   map (line_distance selection chain (resdict h') offset)
                     (filter (line_accepted pcut offset (fst ` set (resdict h'))) align)))
       \<and> ((\<exists>s \<in> set align. \<exists>e. line_fields offset s = Inl e) \<longrightarrow>
           (\<exists>e h'. contactmap E h selection chain align pcut offset = (Inl e, h')))"
proof -
  from fill_resdict_ok [OF assms(2), of "[]"]
  obtain d where d: "fill_resdict (iterate E h selection) [] = (None, d)"
    "fst ` set d = {n. \<exists>a \<in> set (iterate E h selection). py_int (resi a) = Inr n}"
    by auto
  let ?h0 = "h\<lparr>resdict := d\<rparr>"
  have good: "\<exists>h'. contactmap E h selection chain align pcut offset = (Inr (), h')
              \<and> fst ` set (resdict h')
                   = {n. \<exists>a \<in> set (iterate E h selection). py_int (resi a) = Inr n}
              \<and> distances h' = distances h @
                   map (line_distance selection chain (resdict h') offset)
                     (filter (line_accepted pcut offset (fst ` set (resdict h'))) align)"
    if ok: "\<forall>s \<in> set align. \<exists>t. line_fields offset s = Inr t"
    using contact_lines_ok [OF ok, of selection chain pcut ?h0] assms(1) d
    by (simp add: contactmap_def cmd_set_def)
  have bad: "\<exists>e h'. contactmap E h selection chain align pcut offset = (Inl e, h')"
    if "\<exists>s \<in> set align. \<exists>e. line_fields offset s = Inl e"
    using contact_lines_bad [OF that, of selection chain pcut ?h0] assms(1) d
    by (auto simp: contactmap_def)
  from good bad show ?thesis by blast
qed

lemmas host_eval =
  contactmap_def cmd_set_def line_fields_def int_field_def float_field_def field_def comp_def
  distance_args_def car_def fixed_engine_def empty_host_def res_atom_def

lemma str_int_samples:
  "str_int 5 = ''5''" "str_int 7 = ''7''" "str_int 9 = ''9''"
  by code_simp+

theorem contactmap_accepted_lines_witness:
  "map (\<lambda>a. py_int (resi a)) [res_atom ''5'' ''GLY'', res_atom ''9'' ''ALA''] = [Inr 5, Inr 9]
   \<and> map (line_fields 0) [''CON 5 9 1.0 0.9995'', ''CON 5 9 1.0 0.5'', ''CON 5 7 1.0 1.0'']
       = [Inr (5, 9, Fin (9995 / 10000)), Inr (5, 9, Fin (1 / 2)), Inr (5, 7, Fin 1)]
   \<and> fst (contactmap (fixed_engine [res_atom ''5'' ''GLY'', res_atom ''9'' ''ALA'']) empty_host
        ''m'' ''A'' [''CON 5 9 1.0 0.9995'', ''CON 5 9 1.0 0.5'', ''CON 5 7 1.0 1.0'']
        (999 / 1000) 0) = Inr ()
   \<and> distances (snd (contactmap (fixed_engine [res_atom ''5'' ''GLY'', res_atom ''9'' ''ALA''])
        empty_host ''m'' ''A''
        [''CON 5 9 1.0 0.9995'', ''CON 5 9 1.0 0.5'', ''CON 5 7 1.0 1.0''] (999 / 1000) 0))
       = [(''5_9_m'', ''/m//A/5/CA'', ''/m//A/9/CB'')]"
proof -
  let ?E = "fixed_engine [res_atom ''5'' ''GLY'', res_atom ''9'' ''ALA'']"
  let ?f = "[''CON 5 9 1.0 0.9995'', ''CON 5 9 1.0 0.5'', ''CON 5 7 1.0 1.0'']"
  have atoms: "map (\<lambda>a. py_int (resi a)) [res_atom ''5'' ''GLY'', res_atom ''9'' ''ALA'']
      = [Inr 5, Inr 9]"
    by (simp add: res_atom_def py_eval)
  have lines: "map (line_fields 0) ?f
       = [Inr (5, 9, Fin (9995 / 10000)), Inr (5, 9, Fin (1 / 2)), Inr (5, 7, Fin 1)]"
    by (simp add: host_eval py_eval)
  have a: "\<forall>a \<in> set (iterate ?E empty_host ''m''). \<exists>n. py_int (resi a) = Inr n"
    using atoms by (simp add: fixed_engine_def)
  have l: "\<forall>s \<in> set ?f. \<exists>t. line_fields 0 s = Inr t"
    using lines by simp
  have run: "contactmap ?E empty_host ''m'' ''A'' ?f (999 / 1000) 0 =
      (Inr (), empty_host\<lparr>distances := [(''5_9_m'', ''/m//A/5/CA'', ''/m//A/9/CB'')],
          resdict := [(5, ''GLY''), (9, ''ALA'')],
          settings := [(''dash_color'', ''cyan''), (''dash_radius'', ''0.1''),
                       (''dash_gap'', ''0.05'')]\<rparr>)"
    by (simp add: host_eval py_eval str_int_samples)
  have "\<exists>h'. contactmap ?E empty_host ''m'' ''A'' ?f (999 / 1000) 0 = (Inr (), h')"
    using contactmap_accepted_lines [of "''m''" ?E empty_host ?f 0 "''A''" "999 / 1000"] a l
    by auto
  then have "fst (contactmap ?E empty_host ''m'' ''A'' ?f (999 / 1000) 0) = Inr ()"
    by auto
  with atoms lines run show ?thesis by simp
qed

text \<open>
  Claim C4 as stated fails in two places. A probability equal to the cutoff minus the
  tolerance is "at least" that value, yet the line gets no distance object: \<open>comp\<close>
  compares with \<open><\<close>. And an empty line is not skipped: it raises \<open>IndexError\<close>.
\<close>

theorem contactmap_accepted_lines_counterexample:
  "line_fields 0 ''CON 5 9 1.0 0.0'' = Inr (5, 9, Fin 0)
   \<and> (0 :: real) \<ge> 1 / 10 ^ 12 - 1 / 10 ^ 12
   \<and> contactmap (fixed_engine [res_atom ''5'' ''GLY'', res_atom ''9'' ''ALA'']) empty_host
        ''m'' ''A'' [''CON 5 9 1.0 0.0''] (1 / 10 ^ 12) 0
       = (Inr (), empty_host\<lparr>distances := [],
            resdict := [(5, ''GLY''), (9, ''ALA'')],
            settings := [(''dash_color'', ''cyan''), (''dash_radius'', ''0.1''),
                         (''dash_gap'', ''0.05'')]\<rparr>)
   \<and> fst (contactmap (fixed_engine [res_atom ''5'' ''GLY'', res_atom ''9'' ''ALA'']) empty_host
        ''m'' ''A'' [''CON 5 9 1.0 0.9995'', ''''] (999 / 1000) 0) = Inl IndexError"
  by (simp add: host_eval py_eval)

subsection \<open>querying.py: get_sasa\<close>

lemma digit_char:
  assumes "d < 10"
  shows "is_digit (char_of (48 + d))" and "digit_val (char_of (48 + d)) = d"
  using assms by (simp_all add: is_digit_def digit_val_def)

lemma read_digits_snoc:
  "is_digit c \<Longrightarrow> read_digits (s @ [c]) = 10 * read_digits s + digit_val c"
  by (simp add: read_digits_def)

lemma read_digits_digits10: "read_digits (digits10 n) = n"
proof (induction n rule: digits10.induct)
  case (1 n)
  show ?case
  proof (cases "n < 10")
    case True
    then have "digits10 n = [] @ [char_of (48 + n)]"
      by (subst digits10.simps) simp
    then show ?thesis
      using digit_char [OF True] read_digits_snoc [of "char_of (48 + n)" "[]"]
      by (simp add: read_digits_def)
  next
    case False
    have m: "n mod 10 < 10" by simp
    have "digits10 n = digits10 (n div 10) @ [char_of (48 + n mod 10)]"
      using False by (subst digits10.simps) simp
    then show ?thesis
      using "1.IH" False digit_char [OF m]
      by (simp add: read_digits_snoc del: digits10.simps)
  qed
qed

lemma read_digits_fmt02: "read_digits (fmt02 n) = n"
proof -
  have "read_digits (CHR ''0'' # s) = read_digits s" for s
    by (simp add: read_digits_def is_digit_def digit_val_def)
  then show ?thesis
    by (simp add: fmt02_def read_digits_digits10 del: digits10.simps)
qed

lemma distinct_candidates: "distinct (candidates h prefix)"
proof -
  have "inj (\<lambda>cnt. prefix @ fmt02 cnt)"
  proof (rule injI)
    fix a b assume "prefix @ fmt02 a = prefix @ fmt02 b"
    then have "read_digits (fmt02 a) = read_digits (fmt02 b)" by simp
    then show "a = b" by (simp only: read_digits_fmt02)
  qed
  then have "inj_on (\<lambda>cnt. prefix @ fmt02 cnt) (set [1 ..< length (names h) + 2])"
    by (rule inj_on_subset) simp
  then show ?thesis
    unfolding candidates_def by (simp only: distinct_map distinct_upt simp_thms)
qed

lemma more_candidates_than_names:
  assumes "distinct cs" and "length ns < length cs"
  shows "\<exists>c \<in> set cs. c \<notin> set ns"
proof (rule ccontr)
  assume "\<not> (\<exists>c \<in> set cs. c \<notin> set ns)"
  then have "set cs \<subseteq> set ns" by auto
  then have "card (set cs) \<le> card (set ns)" by (simp add: card_mono)
  also have "\<dots> \<le> length ns" by (rule card_length)
  finally show False using assms by (simp add: distinct_card)
qed

lemma get_unused_name_fresh: "get_unused_name h prefix \<notin> set (names h)"
proof -
  have "length (candidates h prefix) = length (names h) + 2 - 1"
    unfolding candidates_def by (simp only: length_map length_upt)
  then have "length (names h) < length (candidates h prefix)"
    by arith
  with distinct_candidates [of h prefix]
  have "\<exists>c \<in> set (candidates h prefix). c \<notin> set (names h)"
    by (rule more_candidates_than_names)
  then obtain n where "find (\<lambda>n. n \<notin> set (names h)) (candidates h prefix) = Some n"
    by (cases "find (\<lambda>n. n \<notin> set (names h)) (candidates h prefix)")
       (auto simp: find_None_iff)
  moreover from this have "n \<notin> set (names h)"
    by (auto simp: find_Some_iff)
  ultimately show ?thesis by (simp add: get_unused_name_def)
qed

lemma dict_set_fresh: "k \<notin> fst ` set d \<Longrightarrow> dict_set k v d = d @ [(k, v)]"
  by (induction d) auto

lemma map_untouched:
  "k \<notin> fst ` set d \<Longrightarrow> map (\<lambda>(k', ob). if k' = k then (k', f ob) else (k', ob)) d = d"
  by (induction d) auto

lemma filter_untouched: "k \<notin> fst ` set d \<Longrightarrow> filter (\<lambda>(k', ob). k' \<noteq> k) d = d"
  by (induction d) auto

text \<open>The temporary object as it is when its area is computed.\<close>

lemma get_sasa_prepared_objects:
  assumes n: "n = get_unused_name h ''_''"
    and st: "st = (if state < 1 then cur_state h else state)"
    and tmp: "tmp = \<lparr>ostates = [get_model E h selection st],
                    osettings = (if dot_density > - 1
                                 then [(''dot_solvent'', ''1''), (''dot_density'', str_int dot_density)]
                                 else [(''dot_solvent'', ''1'')])\<rparr>"
    and ok: "resolves E h selection"
  shows "get_sasa_prepared E h selection state dot_density
           = Inr (h\<lparr>objects := objects h @ [(n, tmp)]\<rparr>)"
proof -
  have fresh: "n \<notin> fst ` set (objects h)"
    using get_unused_name_fresh [of h "''_''"] n by (simp add: names_def)
  show ?thesis
    unfolding get_sasa_prepared_def Let_def n [symmetric] st [symmetric]
    using fresh ok
    by (simp add: cmd_create_def cmd_set_in_def dict_set_fresh map_untouched tmp)
qed

lemma get_sasa_run:
  assumes n: "n = get_unused_name h ''_''"
    and st: "st = (if state < 1 then cur_state h else state)"
    and tmp: "tmp = \<lparr>ostates = [get_model E h selection st],
                    osettings = (if dot_density > - 1
                                 then [(''dot_solvent'', ''1''), (''dot_density'', str_int dot_density)]
                                 else [(''dot_solvent'', ''1'')])\<rparr>"
    and ok: "resolves E h selection"
  shows "get_sasa E h selection state dot_density = (Inr (get_area E tmp (settings h)), h)"
proof -
  have fresh: "n \<notin> fst ` set (objects h)" "n \<notin> fst ` set (selections h)"
    "n \<notin> fst ` set (distances h)"
    using get_unused_name_fresh [of h "''_''"] n by (simp_all add: names_def)
  have prep: "get_sasa_prepared E h selection state dot_density
      = Inr (h\<lparr>objects := objects h @ [(n, tmp)]\<rparr>)"
    using assms by (rule get_sasa_prepared_objects)
  have look: "map_of (objects h @ [(n, tmp)]) n = Some tmp"
    using fresh(1) by (simp add: map_add_Some_iff map_of_eq_None_iff)
  show ?thesis
    unfolding get_sasa_def Let_def n [symmetric] prep
    using fresh look
    by (simp add: cmd_get_area_def cmd_delete_def filter_untouched)
qed

lemma get_sasa_unresolved:
  assumes "\<not> resolves E h selection"
  shows "get_sasa_prepared E h selection state dot_density = Inl (CmdException ''create'')"
    and "get_sasa E h selection state dot_density = (Inl (CmdException ''create''), h)"
  using assms by (simp_all add: get_sasa_def get_sasa_prepared_def cmd_create_def Let_def)

lemma get_sasa_host: "snd (get_sasa E h selection state dot_density) = h"
proof (cases "resolves E h selection")
  case True
  from get_sasa_run [OF refl refl refl True] show ?thesis by simp
next
  case False
  from get_sasa_unresolved(2) [OF False] show ?thesis by simp
qed

text \<open>
  Claim C10 (as amended). \<open>get_sasa\<close> leaves the host, its loaded objects and global
  settings included, exactly as it was, on every invocation. When the host can resolve
  the selection, \<open>get_sasa\<close> takes a name that no object, selection or measurement
  object has, creates exactly one object under it (the copy of the selection in the
  chosen state), sets \<open>dot_solvent\<close> and, when \<open>dot_density > -1\<close>,
  \<open>dot_density\<close> on that object only, returns the area the engine computes for that
  copy, and deletes it before returning. When the host cannot resolve the selection,
  \<open>cmd.create\<close> raises \<open>CmdException\<close>: no object is created and no area is
  returned.
\<close>

theorem get_sasa_leaves_host:
  "get_unused_name h ''_'' \<notin> set (names h)
   \<and> snd (get_sasa E h selection state dot_density) = h
   \<and> (resolves E h selection \<longrightarrow>
        (\<exists>tmp.
            ostates tmp = [get_model E h selection (if state < 1 then cur_state h else state)]
          \<and> osettings tmp =
               (if dot_density > - 1
                then [(''dot_solvent'', ''1''), (''dot_density'', str_int dot_density)]
                else [(''dot_solvent'', ''1'')])
          \<and> get_sasa_prepared E h selection state dot_density
               = Inr (h\<lparr>objects := objects h @ [(get_unused_name h ''_'', tmp)]\<rparr>)
          \<and> get_sasa E h selection state dot_density = (Inr (get_area E tmp (settings h)), h)))
   \<and> (\<not> resolves E h selection \<longrightarrow>
          get_sasa_prepared E h selection state dot_density = Inl (CmdException ''create'')
        \<and> get_sasa E h selection state dot_density = (Inl (CmdException ''create''), h))"
proof (intro conjI impI)
  show "get_unused_name h ''_'' \<notin> set (names h)"
    by (rule get_unused_name_fresh)
  show "snd (get_sasa E h selection state dot_density) = h"
    by (rule get_sasa_host)
next
  assume ok: "resolves E h selection"
  define st where "st = (if state < 1 then cur_state h else state)"
  define tmp where "tmp = \<lparr>ostates = [get_model E h selection st],
                    osettings = (if dot_density > - 1
                                 then [(''dot_solvent'', ''1''), (''dot_density'', str_int dot_density)]
                                 else [(''dot_solvent'', ''1'')])\<rparr>"
  have "get_sasa_prepared E h selection state dot_density
      = Inr (h\<lparr>objects := objects h @ [(get_unused_name h ''_'', tmp)]\<rparr>)"
    using refl st_def tmp_def ok by (rule get_sasa_prepared_objects)
  moreover have "get_sasa E h selection state dot_density = (Inr (get_area E tmp (settings h)), h)"
    using refl st_def tmp_def ok by (rule get_sasa_run)
  moreover have "ostates tmp = [get_model E h selection st]"
    and "osettings tmp =
         (if dot_density > - 1
          then [(''dot_solvent'', ''1''), (''dot_density'', str_int dot_density)]
          else [(''dot_solvent'', ''1'')])"
    by (simp_all add: tmp_def)
  ultimately show "\<exists>tmp.
            ostates tmp = [get_model E h selection (if state < 1 then cur_state h else state)]
          \<and> osettings tmp =
               (if dot_density > - 1
                then [(''dot_solvent'', ''1''), (''dot_density'', str_int dot_density)]
                else [(''dot_solvent'', ''1'')])
          \<and> get_sasa_prepared E h selection state dot_density
               = Inr (h\<lparr>objects := objects h @ [(get_unused_name h ''_'', tmp)]\<rparr>)
          \<and> get_sasa E h selection state dot_density = (Inr (get_area E tmp (settings h)), h)"
    unfolding st_def by blast
next
  assume no: "\<not> resolves E h selection"
  show "get_sasa_prepared E h selection state dot_density = Inl (CmdException ''create'')"
    and "get_sasa E h selection state dot_density = (Inl (CmdException ''create''), h)"
    using get_sasa_unresolved [OF no] by simp_all
qed

lemma get_unused_name_busy: "get_unused_name busy_host ''_'' = ''_02''"
  by code_simp

lemma str_int_five: "str_int 5 = ''5''"
  by code_simp

theorem get_sasa_leaves_host_witness:
  "resolves (knowing_engine [''m''] [atom_at 0 1, atom_at 1 1]) busy_host ''m''
   \<and> get_unused_name busy_host ''_'' = ''_02''
   \<and> map fst (objects busy_host) = [''m'', ''_01'']
   \<and> get_sasa_prepared (knowing_engine [''m''] [atom_at 0 1, atom_at 1 1]) busy_host ''m'' 0 5
       = Inr (busy_host\<lparr>objects := objects busy_host @
                [(''_02'', \<lparr>ostates = [[atom_at 0 1, atom_at 1 1]],
                             osettings = [(''dot_solvent'', ''1''), (''dot_density'', ''5'')]\<rparr>)]\<rparr>)
   \<and> get_sasa (knowing_engine [''m''] [atom_at 0 1, atom_at 1 1]) busy_host ''m'' 0 5
       = (Inr 2, busy_host)
   \<and> \<not> resolves (knowing_engine [''m''] [atom_at 0 1, atom_at 1 1]) busy_host ''all''
   \<and> get_sasa (knowing_engine [''m''] [atom_at 0 1, atom_at 1 1]) busy_host ''all'' 0 5
       = (Inl (CmdException ''create''), busy_host)"
proof -
  let ?E = "knowing_engine [''m''] [atom_at 0 1, atom_at 1 1]"
  have ok: "resolves ?E busy_host ''m''" and no: "\<not> resolves ?E busy_host ''all''"
    by (simp_all add: knowing_engine_def)
  have objs: "map fst (objects busy_host) = [''m'', ''_01'']"
    by (simp add: busy_host_def)
  note t = get_sasa_leaves_host [of busy_host ?E "''m''" 0 5]
  from t ok obtain tmp where tmp:
    "ostates tmp = [get_model ?E busy_host ''m'' (if (0::int) < 1 then cur_state busy_host else 0)]"
    "osettings tmp = (if (5::int) > - 1
                then [(''dot_solvent'', ''1''), (''dot_density'', str_int 5)]
                else [(''dot_solvent'', ''1'')])"
    "get_sasa_prepared ?E busy_host ''m'' 0 5
       = Inr (busy_host\<lparr>objects := objects busy_host @ [(get_unused_name busy_host ''_'', tmp)]\<rparr>)"
    "get_sasa ?E busy_host ''m'' 0 5 = (Inr (get_area ?E tmp (settings busy_host)), busy_host)"
    by blast
  have tmp_eq: "tmp = \<lparr>ostates = [[atom_at 0 1, atom_at 1 1]],
                       osettings = [(''dot_solvent'', ''1''), (''dot_density'', ''5'')]\<rparr>"
    using tmp(1,2) by (cases tmp) (simp add: knowing_engine_def str_int_five)
  have prep: "get_sasa_prepared ?E busy_host ''m'' 0 5
       = Inr (busy_host\<lparr>objects := objects busy_host @
                [(''_02'', \<lparr>ostates = [[atom_at 0 1, atom_at 1 1]],
                             osettings = [(''dot_solvent'', ''1''), (''dot_density'', ''5'')]\<rparr>)]\<rparr>)"
    using tmp(3) unfolding tmp_eq get_unused_name_busy .
  have run: "get_sasa ?E busy_host ''m'' 0 5 = (Inr 2, busy_host)"
    using tmp(4) unfolding tmp_eq by (simp add: knowing_engine_def)
  have fail: "get_sasa ?E busy_host ''all'' 0 5 = (Inl (CmdException ''create''), busy_host)"
    using get_sasa_leaves_host [of busy_host ?E "''all''" 0 5] no by blast
  show ?thesis
    by (intro conjI) (rule ok get_unused_name_busy objs prep run no fail)+
qed

text \<open>
  Claim C10 as stated fails for a selection that the host cannot resolve:
  \<open>cmd.create\<close> raises, so that \<open>get_sasa\<close> creates no temporary object and returns
  no area. The host is as it was.
\<close>

theorem get_sasa_leaves_host_counterexample:
  "\<not> resolves (knowing_engine [''m''] [atom_at 0 1, atom_at 1 1]) busy_host ''nosuch''
   \<and> get_sasa_prepared (knowing_engine [''m''] [atom_at 0 1, atom_at 1 1]) busy_host ''nosuch'' 0 5
       = Inl (CmdException ''create'')
   \<and> get_sasa (knowing_engine [''m''] [atom_at 0 1, atom_at 1 1]) busy_host ''nosuch'' 0 5
       = (Inl (CmdException ''create''), busy_host)"
  by (simp add: get_sasa_def get_sasa_prepared_def cmd_create_def knowing_engine_def Let_def)

subsection \<open>The commands and the state of the host\<close>






subsection \<open>xtal.py: cellbasis\<close>

lemma radians_range:
  assumes "0 < x" "x < 180"
  shows "0 < radians x" and "radians x < pi"
  using assms pi_gt_zero by (simp_all add: radians_def field_simps)

lemma degrees_of_radians: "radians x * 180 / pi = x"
  by (simp add: radians_def)

lemma cellbasis_computed:
  assumes g: "sin (radians gamma) \<noteq> 0" and arg: "0 \<le> sqrt_arg alpha beta gamma"
  shows "cellbasis [alpha, beta, gamma] edges =
           (case times_edges
                   [[1, cos (radians gamma), cos (radians beta), 0],
                    [0, sin (radians gamma),
                     (cos (radians alpha) - cos (radians gamma) * cos (radians beta))
                       / sin (radians gamma), 0],
                    [0, 0, sqrt (sqrt_arg alpha beta gamma), 0],
                    [0, 0, 0, 1]] (edges @ [1]) of
              Inl e \<Rightarrow> (Raised e, edges @ [1])
            | Inr m \<Rightarrow> (Basis m, edges @ [1]))"
  using g arg by (simp add: cellbasis_def sqrt_arg_def Let_def)

lemma cellbasis_three_edges:
  assumes g: "sin (radians gamma) \<noteq> 0" and arg: "0 \<le> sqrt_arg alpha beta gamma"
  shows "cellbasis [alpha, beta, gamma] [a, b, c] =
           (Basis [[a, b * cos (radians gamma), c * cos (radians beta), 0],
                   [0, b * sin (radians gamma),
                    c * ((cos (radians alpha) - cos (radians gamma) * cos (radians beta))
                       / sin (radians gamma)), 0],
                   [0, 0, c * sqrt (sqrt_arg alpha beta gamma), 0],
                   [0, 0, 0, 1]],
            [a, b, c, 1])"
  unfolding cellbasis_computed [OF g arg]
  by (simp add: times_edges_def broadcastable_def mult.commute)

lemma norm3_scaled_unit:
  assumes "0 \<le> k" and "x\<^sup>2 + y\<^sup>2 + z\<^sup>2 = 1"
  shows "norm3 (k * x, k * y, k * z) = k"
proof -
  have "dot_product (k * x, k * y, k * z) (k * x, k * y, k * z) = k\<^sup>2 * (x\<^sup>2 + y\<^sup>2 + z\<^sup>2)"
    by (simp add: power2_eq_square algebra_simps)
  then show ?thesis
    using assms by (simp add: norm3_def)
qed

lemma angle_deg_scaled_units:
  assumes k: "0 < k" and l: "0 < l"
    and nu: "norm3 (k * x, k * y, k * z) = k" and nv: "norm3 (l * x', l * y', l * z') = l"
    and dot: "x * x' + y * y' + z * z' = cos (radians t)"
    and t: "0 < t" "t < 180"
  shows "angle_deg (k * x, k * y, k * z) (l * x', l * y', l * z') = t"
proof -
  have "dot_product (k * x, k * y, k * z) (l * x', l * y', l * z')
      = (k * l) * (x * x' + y * y' + z * z')"
    by (simp add: algebra_simps)
  then have "dot_product (k * x, k * y, k * z) (l * x', l * y', l * z') / (k * l)
      = cos (radians t)"
    using k l dot by simp
  then have "angle_deg (k * x, k * y, k * z) (l * x', l * y', l * z')
      = arccos (cos (radians t)) * 180 / pi"
    unfolding angle_deg_def nu nv by simp
  also have "\<dots> = radians t * 180 / pi"
    using radians_range [OF t] by (simp add: arccos_cos)
  finally show ?thesis by (simp only: degrees_of_radians)
qed

lemma cellbasis_columns:
  assumes g: "0 < gamma" "gamma < 180" and arg: "0 \<le> sqrt_arg alpha beta gamma"
    and e: "0 < a" "0 < b" "0 < c"
  defines "m \<equiv> [[a, b * cos (radians gamma), c * cos (radians beta), 0],
                   [0, b * sin (radians gamma),
                    c * ((cos (radians alpha) - cos (radians gamma) * cos (radians beta))
                       / sin (radians gamma)), 0],
                   [0, 0, c * sqrt (sqrt_arg alpha beta gamma), 0],
                   [0, 0, 0, 1]]"
  shows "cellbasis [alpha, beta, gamma] [a, b, c] = (Basis m, [a, b, c, 1])"
    and "norm3 (column 0 m) = a" and "norm3 (column 1 m) = b" and "norm3 (column 2 m) = c"
    and "angle_deg (column 0 m) (column 1 m) = gamma"
    and "0 < beta \<Longrightarrow> beta < 180 \<Longrightarrow> angle_deg (column 0 m) (column 2 m) = beta"
    and "0 < alpha \<Longrightarrow> alpha < 180 \<Longrightarrow> angle_deg (column 1 m) (column 2 m) = alpha"
proof -
  define cg sg cb y where "cg = cos (radians gamma)" and "sg = sin (radians gamma)"
    and "cb = cos (radians beta)"
    and "y = (cos (radians alpha) - cos (radians gamma) * cos (radians beta)) / sin (radians gamma)"
  define w where "w = sqrt (sqrt_arg alpha beta gamma)"
  have sg: "0 < sg"
    unfolding sg_def using radians_range [OF g] by (intro sin_gt_zero)
  have unit1: "cg\<^sup>2 + sg\<^sup>2 + 0\<^sup>2 = 1"
    by (simp add: cg_def sg_def)
  have "w\<^sup>2 = sqrt_arg alpha beta gamma"
    unfolding w_def using arg by simp
  then have unit2: "cb\<^sup>2 + y\<^sup>2 + w\<^sup>2 = 1"
    by (simp add: sqrt_arg_def cb_def y_def)
  have unit0: "(1::real)\<^sup>2 + 0\<^sup>2 + 0\<^sup>2 = 1" by simp
  have c0: "column 0 m = (a * 1, a * 0, a * 0)"
    and c1: "column 1 m = (b * cg, b * sg, b * 0)"
    and c2: "column 2 m = (c * cb, c * y, c * w)"
    by (simp_all add: column_def m_def cg_def sg_def cb_def y_def w_def)
  show "cellbasis [alpha, beta, gamma] [a, b, c] = (Basis m, [a, b, c, 1])"
    unfolding m_def using sg arg by (intro cellbasis_three_edges) (simp_all add: sg_def)
  show n0: "norm3 (column 0 m) = a"
    unfolding c0 using e unit0 by (intro norm3_scaled_unit) simp_all
  show n1: "norm3 (column 1 m) = b"
    unfolding c1 using e unit1 by (intro norm3_scaled_unit) simp_all
  show n2: "norm3 (column 2 m) = c"
    unfolding c2 using e unit2 by (intro norm3_scaled_unit) simp_all
  show "angle_deg (column 0 m) (column 1 m) = gamma"
    unfolding c0 c1
    by (rule angle_deg_scaled_units [OF e(1) e(2) n0 [unfolded c0] n1 [unfolded c1] _ g])
       (simp add: cg_def)
  show "angle_deg (column 0 m) (column 2 m) = beta" if "0 < beta" "beta < 180"
    unfolding c0 c2
    by (rule angle_deg_scaled_units [OF e(1) e(3) n0 [unfolded c0] n2 [unfolded c2] _ that])
       (simp add: cb_def)
  have "cg * cb + sg * y + 0 * w = cos (radians alpha)"
    using sg by (simp add: y_def cg_def sg_def cb_def)
  then show "angle_deg (column 1 m) (column 2 m) = alpha" if "0 < alpha" "alpha < 180"
    unfolding c1 c2
    by (intro angle_deg_scaled_units [OF e(2) e(3) n1 [unfolded c1] n2 [unfolded c2] _ that])
qed

text \<open>
  Claim C5 (as amended). For cell angles \<open>alpha\<close>, \<open>beta\<close>, \<open>gamma\<close> strictly
  between 0 and 180 degrees with a positive argument of the square root, and positive
  edge lengths \<open>a\<close>, \<open>b\<close>, \<open>c\<close>, \<open>cellbasis\<close> returns a 4x4 matrix whose three
  3-D column vectors have the norms \<open>a\<close>, \<open>b\<close>, \<open>c\<close>, with column 0 along the x
  axis, the angle \<open>gamma\<close> between columns 0 and 1, \<open>beta\<close> between columns 0 and 2
  and \<open>alpha\<close> between columns 1 and 2, and whose fourth row and fourth column are
  \<open>(0, 0, 0, 1)\<close>.
\<close>

theorem cellbasis_geometry:
  assumes "0 < alpha" "alpha < 180" "0 < beta" "beta < 180" "0 < gamma" "gamma < 180"
    and "0 < sqrt_arg alpha beta gamma"
    and "0 < a" "0 < b" "0 < c"
  shows "\<exists>m. cellbasis [alpha, beta, gamma] [a, b, c] = (Basis m, [a, b, c, 1])
           \<and> length m = 4 \<and> map length m = [4, 4, 4, 4]
           \<and> norm3 (column 0 m) = a \<and> norm3 (column 1 m) = b \<and> norm3 (column 2 m) = c
           \<and> column 0 m = (a, 0, 0)
           \<and> angle_deg (column 0 m) (column 1 m) = gamma
           \<and> angle_deg (column 0 m) (column 2 m) = beta
           \<and> angle_deg (column 1 m) (column 2 m) = alpha
           \<and> m ! 3 = [0, 0, 0, 1] \<and> map (\<lambda>row. row ! 3) m = [0, 0, 0, 1]"
proof -
  let ?m = "[[a, b * cos (radians gamma), c * cos (radians beta), 0],
             [0, b * sin (radians gamma),
              c * ((cos (radians alpha) - cos (radians gamma) * cos (radians beta))
                 / sin (radians gamma)), 0],
             [0, 0, c * sqrt (sqrt_arg alpha beta gamma), 0],
             [0, 0, 0, 1]]"
  have arg: "0 \<le> sqrt_arg alpha beta gamma" using assms(7) by simp
  note cols = cellbasis_columns [OF assms(5,6) arg assms(8-10)]
  show ?thesis
  proof (intro exI [of _ ?m] conjI)
    show "cellbasis [alpha, beta, gamma] [a, b, c] = (Basis ?m, [a, b, c, 1])"
      by (rule cols(1))
    show "norm3 (column 0 ?m) = a" "norm3 (column 1 ?m) = b" "norm3 (column 2 ?m) = c"
      by (rule cols(2) cols(3) cols(4))+
    show "angle_deg (column 0 ?m) (column 1 ?m) = gamma"
      by (rule cols(5))
    show "angle_deg (column 0 ?m) (column 2 ?m) = beta"
      by (rule cols(6) [OF assms(3,4)])
    show "angle_deg (column 1 ?m) (column 2 ?m) = alpha"
      by (rule cols(7) [OF assms(1,2)])
  qed (simp_all add: column_def)
qed

lemma radians_samples:
  "radians 90 = pi / 2" "radians 60 = pi / 3" "radians 0 = 0"
  by (simp_all add: radians_def)

theorem cellbasis_geometry_witness:
  "sqrt_arg 90 90 90 = 1
   \<and> cellbasis [90, 90, 90] [2, 3, 4]
       = (Basis [[2, 0, 0, 0], [0, 3, 0, 0], [0, 0, 4, 0], [0, 0, 0, 1]], [2, 3, 4, 1])
   \<and> norm3 (column 1 [[2, 0, 0, 0], [0, 3, 0, 0], [0, 0, 4, 0], [0, 0, 0, 1]]) = 3
   \<and> angle_deg (column 1 [[2, 0, 0, 0], [0, 3, 0, 0], [0, 0, 4, 0], [0, 0, 0, 1]])
        (column 2 [[2, 0, 0, 0], [0, 3, 0, 0], [0, 0, 4, 0], [0, 0, 0, 1]]) = 90"
proof -
  have sa: "sqrt_arg 90 90 90 = 1"
    by (simp add: sqrt_arg_def radians_samples)
  have run: "cellbasis [90, 90, 90] [2, 3, 4]
       = (Basis [[2, 0, 0, 0], [0, 3, 0, 0], [0, 0, 4, 0], [0, 0, 0, 1]], [2, 3, 4, 1])"
    by (simp add: cellbasis_def radians_samples times_edges_def broadcastable_def)
  from cellbasis_geometry [of 90 90 90 2 3 4] sa run
  have "norm3 (column 1 [[2, 0, 0, 0], [0, 3, 0, 0], [0, 0, 4, 0], [0, 0, 0, 1]]) = 3"
    and "angle_deg (column 1 [[2, 0, 0, 0], [0, 3, 0, 0], [0, 0, 4, 0], [0, 0, 0, 1]])
        (column 2 [[2, 0, 0, 0], [0, 3, 0, 0], [0, 0, 4, 0], [0, 0, 0, 1]]) = 90"
    by auto
  with sa run show ?thesis by blast
qed

text \<open>
  Claim C5 as stated fails in its labelling of the angles: for \<open>alpha = 60\<close>,
  \<open>beta = gamma = 90\<close> and unit edges the angle between columns 1 and 2 of the result
  is 60 degrees, which is \<open>alpha\<close> and not \<open>gamma\<close>.
\<close>

theorem cellbasis_geometry_counterexample:
  "cellbasis [60, 90, 90] [1, 1, 1]
     = (Basis [[1, 0, 0, 0], [0, 1, 1 / 2, 0], [0, 0, sqrt (3 / 4), 0], [0, 0, 0, 1]],
        [1, 1, 1, 1])
   \<and> angle_deg (column 1 [[1, 0, 0, 0], [0, 1, 1 / 2, 0], [0, 0, sqrt (3 / 4), 0], [0, 0, 0, 1]])
        (column 2 [[1, 0, 0, 0], [0, 1, 1 / 2, 0], [0, 0, sqrt (3 / 4), 0], [0, 0, 0, 1]]) = 60
   \<and> (60 :: real) \<noteq> 90"
proof -
  have sa: "sqrt_arg 60 90 90 = 3 / 4"
    by (simp add: sqrt_arg_def radians_samples cos_60 power2_eq_square)
  have arg: "0 \<le> sqrt_arg 60 90 90" by (simp add: sa)
  note cols = cellbasis_columns [where alpha = 60 and beta = 90 and gamma = 90
      and a = 1 and b = 1 and c = 1, OF _ _ arg, unfolded sa radians_samples cos_60, simplified]
  from cols(1) cols(7) show ?thesis by simp
qed

lemma cellbasis_three_angles:
  assumes "3 \<le> length angles"
  shows "cellbasis angles edges =
     (if sin (radians (angles ! 2)) = 0 then
        (if cos (radians (angles ! 0)) - cos (radians (angles ! 2)) * cos (radians (angles ! 1)) = 0
         then (if broadcastable (edges @ [1]) then (NonFinite, edges @ [1])
               else (Raised ValueError, edges @ [1]))
         else (Raised ValueError, edges))
      else if sqrt_arg (angles ! 0) (angles ! 1) (angles ! 2) < 0 then (Raised ValueError, edges)
      else
        (case times_edges
                [[1, cos (radians (angles ! 2)), cos (radians (angles ! 1)), 0],
                 [0, sin (radians (angles ! 2)),
                  (cos (radians (angles ! 0)) - cos (radians (angles ! 2)) * cos (radians (angles ! 1)))
                    / sin (radians (angles ! 2)), 0],
                 [0, 0, sqrt (sqrt_arg (angles ! 0) (angles ! 1) (angles ! 2)), 0],
                 [0, 0, 0, 1]] (edges @ [1]) of
           Inl e \<Rightarrow> (Raised e, edges @ [1])
         | Inr m \<Rightarrow> (Basis m, edges @ [1])))"
proof -
  have n: "map radians angles ! 0 = radians (angles ! 0)"
    "map radians angles ! 1 = radians (angles ! 1)"
    "map radians angles ! 2 = radians (angles ! 2)"
    using assms by (intro nth_map; arith)+
  have l: "\<not> length angles < 3" using assms by simp
  show ?thesis
    unfolding cellbasis_def Let_def n sqrt_arg_def using l by simp
qed

lemma times_edges_result:
  "times_edges basis edges = Inl e \<Longrightarrow> e = ValueError \<and> \<not> broadcastable edges"
  "times_edges basis edges = Inr m \<Longrightarrow> broadcastable edges"
  by (auto simp: times_edges_def split: if_splits)

lemma cellbasis_edges_after:
  "snd (cellbasis angles edges) = (if basis_defined angles then edges @ [1] else edges)"
proof (cases "3 \<le> length angles")
  case False
  then show ?thesis by (simp add: cellbasis_def basis_defined_def)
next
  case True
  show ?thesis
    unfolding cellbasis_three_angles [OF True] basis_defined_def
    using True by (auto split: sum.splits)
qed

lemma cellbasis_raises_early:
  assumes "\<not> basis_defined angles"
  shows "fst (cellbasis angles edges) = Raised IndexError
       \<or> fst (cellbasis angles edges) = Raised ValueError"
proof (cases "3 \<le> length angles")
  case False
  then show ?thesis by (simp add: cellbasis_def)
next
  case True
  show ?thesis
    unfolding cellbasis_three_angles [OF True]
    using True assms by (auto simp: basis_defined_def split: sum.splits if_splits)
qed

lemma cellbasis_shape:
  assumes "basis_defined angles"
  shows "broadcastable (edges @ [1]) \<longleftrightarrow> fst (cellbasis angles edges) \<noteq> Raised ValueError"
proof -
  have True: "3 \<le> length angles" using assms by (simp add: basis_defined_def)
  show ?thesis
    unfolding cellbasis_three_angles [OF True]
    using assms True
    by (auto simp: basis_defined_def split: sum.splits if_splits dest: times_edges_result)
qed

text \<open>
  Claim C8 (as amended). When \<open>cellbasis\<close> is given angles for which the entries of
  the basis are computed (three angles, and a square root with a non-negative argument),
  the list passed as \<open>edges\<close> has the value 1.0 appended to its end after the call,
  also when the final multiplication raises; a second call with the same list object
  leaves it two entries longer than it was, and after a first call with three edges,
  which returns, the second call gives a different result: it raises \<open>ValueError\<close>.
  For other angles the call raises \<open>IndexError\<close> or \<open>ValueError\<close> and leaves the list
  as it was.
\<close>

theorem cellbasis_appends_to_edges:
  "(basis_defined angles \<longrightarrow>
       snd (cellbasis angles edges) = edges @ [1]
     \<and> snd (cellbasis angles (snd (cellbasis angles edges))) = edges @ [1, 1]
     \<and> (length edges = 3 \<longrightarrow>
           fst (cellbasis angles edges) \<noteq> Raised ValueError
         \<and> fst (cellbasis angles (snd (cellbasis angles edges))) = Raised ValueError))
   \<and> (\<not> basis_defined angles \<longrightarrow>
       snd (cellbasis angles edges) = edges
     \<and> (fst (cellbasis angles edges) = Raised IndexError
        \<or> fst (cellbasis angles edges) = Raised ValueError))"
proof (intro conjI impI)
  assume d: "basis_defined angles"
  show one: "snd (cellbasis angles edges) = edges @ [1]"
    using d by (simp add: cellbasis_edges_after)
  show "snd (cellbasis angles (snd (cellbasis angles edges))) = edges @ [1, 1]"
    using d by (simp add: cellbasis_edges_after)
  assume three: "length edges = 3"
  show "fst (cellbasis angles edges) \<noteq> Raised ValueError"
    using cellbasis_shape [OF d, of edges] three by (simp add: broadcastable_def)
  have "\<not> broadcastable ((edges @ [1]) @ [1])"
    using three by (simp add: broadcastable_def)
  then have "fst (cellbasis angles (edges @ [1])) = Raised ValueError"
    using cellbasis_shape [OF d, of "edges @ [1]"] by blast
  then show "fst (cellbasis angles (snd (cellbasis angles edges))) = Raised ValueError"
    by (simp only: one)
next
  assume "\<not> basis_defined angles"
  then show "snd (cellbasis angles edges) = edges"
    and "fst (cellbasis angles edges) = Raised IndexError
        \<or> fst (cellbasis angles edges) = Raised ValueError"
    by (simp_all add: cellbasis_edges_after cellbasis_raises_early)
qed

theorem cellbasis_appends_to_edges_witness:
  "basis_defined [90, 90, 90]
   \<and> cellbasis [90, 90, 90] [2, 3, 4]
       = (Basis [[2, 0, 0, 0], [0, 3, 0, 0], [0, 0, 4, 0], [0, 0, 0, 1]], [2, 3, 4, 1])
   \<and> cellbasis [90, 90, 90] [2, 3, 4, 1] = (Raised ValueError, [2, 3, 4, 1, 1])
   \<and> \<not> basis_defined [90, 90]
   \<and> cellbasis [90, 90] [2, 3, 4] = (Raised IndexError, [2, 3, 4])"
proof -
  have d: "basis_defined [90, 90, 90]"
    by (simp add: basis_defined_def sqrt_arg_def radians_samples)
  have nd: "\<not> basis_defined [90, 90]"
    by (simp add: basis_defined_def)
  have run: "cellbasis [90, 90, 90] [2, 3, 4]
       = (Basis [[2, 0, 0, 0], [0, 3, 0, 0], [0, 0, 4, 0], [0, 0, 0, 1]], [2, 3, 4, 1])"
    by (simp add: cellbasis_def radians_samples times_edges_def broadcastable_def)
  have short: "cellbasis [90, 90] [2, 3, 4] = (Raised IndexError, [2, 3, 4])"
    by (simp add: cellbasis_def)
  from cellbasis_appends_to_edges [of "[90, 90, 90]" "[2, 3, 4]"] d run
  have "snd (cellbasis [90, 90, 90] [2, 3, 4, 1]) = [2, 3, 4, 1, 1]"
    and "fst (cellbasis [90, 90, 90] [2, 3, 4, 1]) = Raised ValueError"
    by simp_all
  then have "cellbasis [90, 90, 90] [2, 3, 4, 1] = (Raised ValueError, [2, 3, 4, 1, 1])"
    by (simp add: prod_eq_iff)
  with d nd run short show ?thesis by blast
qed

text \<open>
  Claim C8 as stated fails for angles that do not describe a cell: with
  \<open>alpha = 0\<close>, \<open>beta = 60\<close>, \<open>gamma = 90\<close> the square root gets \<open>-1/4\<close>,
  \<open>cellbasis\<close> raises before it reaches \<open>edges.append(1.0)\<close>, and the list is as it
  was.
\<close>

theorem cellbasis_appends_to_edges_counterexample:
  "sqrt_arg 0 60 90 = - (1 / 4)
   \<and> cellbasis [0, 60, 90] [2, 3, 4] = (Raised ValueError, [2, 3, 4])"
proof -
  have sa: "sqrt_arg 0 60 90 = - (1 / 4)"
    by (simp add: sqrt_arg_def radians_samples cos_60 power2_eq_square)
  have "cellbasis [0, 60, 90] [2, 3, 4] = (Raised ValueError, [2, 3, 4])"
    by (simp add: cellbasis_def radians_samples cos_60 power2_eq_square)
  with sa show ?thesis by blast
qed

subsection \<open>electrostatics.py: map_new_apbs\<close>











end
